theory Spec2Isabelle
  imports Main
begin

section \<open>Python values used by \<open>ringstone_translate.py\<close>\<close>

text \<open>
  A Python \<open>str\<close> is modelled as a \<open>string\<close> whose characters are the code points
  below 256. \<open>is_space\<close> is \<open>str.isspace\<close> on that range: the characters on which
  \<open>str.split()\<close> and \<open>str.strip()\<close> (called without an argument) cut.
\<close>

definition is_space :: "char \<Rightarrow> bool" where
  "is_space c = ((of_char c :: nat) \<in> {9, 10, 11, 12, 13, 28, 29, 30, 31, 32, 133, 160})"

text \<open>\<open>s.split()\<close>: the maximal runs of non-whitespace characters, in order.\<close>

fun split_acc :: "string \<Rightarrow> string \<Rightarrow> string list" where
  "split_acc cur [] = (if cur = [] then [] else [cur])"
| "split_acc cur (c # cs) =
     (if is_space c then (if cur = [] then split_acc [] cs else cur # split_acc [] cs)
      else split_acc (cur @ [c]) cs)"

definition str_split :: "string \<Rightarrow> string list" where
  "str_split s = split_acc [] s"

text \<open>\<open>s.strip()\<close>: leading and trailing whitespace removed.\<close>

definition str_strip :: "string \<Rightarrow> string" where
  "str_strip s = rev (dropWhile is_space (rev (dropWhile is_space s)))"

text \<open>\<open>s.split(d)\<close> for a one-character separator: never empty, empty fields kept.\<close>

fun split_on_acc :: "char \<Rightarrow> string \<Rightarrow> string \<Rightarrow> string list" where
  "split_on_acc d cur [] = [cur]"
| "split_on_acc d cur (c # cs) =
     (if c = d then cur # split_on_acc d [] cs else split_on_acc d (cur @ [c]) cs)"

definition split_on :: "char \<Rightarrow> string \<Rightarrow> string list" where
  "split_on d s = split_on_acc d [] s"

text \<open>
  A Python \<open>dict\<close> keeps its keys in insertion order and holds each key once: an
  association list. \<open>d[k] = v\<close> overwrites the value of a key that is present, in place,
  and appends a key that is not.
\<close>

fun dict_set :: "('k \<times> 'v) list \<Rightarrow> 'k \<Rightarrow> 'v \<Rightarrow> ('k \<times> 'v) list" where
  "dict_set [] k v = [(k, v)]"
| "dict_set ((k', v') # d) k v =
     (if k' = k then (k', v) # d else (k', v') # dict_set d k v)"

text \<open>The exceptions the program can meet; \<open>Fault\<close> is any other \<open>Exception\<close>
  raised by a client library (network, permission, rate limit, ...), with its text.\<close>

datatype exn =
    GithubException nat
  | Fault string
  | SMTPServerDisconnected
  | JSONDecodeError
  | AttributeError
  | IndexError

section \<open>The program state and its environment\<close>

text \<open>A Translation Entry: (key, original, translated, lang\_tokens).\<close>

type_synonym entry = "string \<times> string \<times> string \<times> int"

definition entry_key :: "entry \<Rightarrow> string" where
  "entry_key e = fst e"

definition entry_tokens :: "entry \<Rightarrow> int" where
  "entry_tokens e = snd (snd (snd e))"

text \<open>The completion returned by the LLM API, as far as \<open>translate_text\<close> reads it:
  \<open>response.usage.total_tokens\<close> (\<open>None\<close> when \<open>response.usage\<close> is absent) and
  \<open>response.choices[i].message.content\<close>.\<close>

record response =
  usage_total_tokens :: "int option"
  choices :: "string option list"

text \<open>A file of the repository is kept as the JSON object it holds (its members in
  written order, names and values strings, as \<open>Dict[str, str]\<close> has them), or as text
  that \<open>json.loads\<close> rejects.\<close>

datatype file_body = JsonObject "(string \<times> string) list" | NotJson string

record pull =
  pr_open :: bool
  pr_head :: string
  pr_base :: string
  pr_title :: string
  pr_body :: string

record commit =
  c_branch :: string
  c_path :: string
  c_message :: string
  c_author :: "string \<times> string"

datatype console_line =
    Translating string
  | BranchExists string
  | PRExists
  | EmailSent string
  | EmailFailed exn

text \<open>The report that \<open>send_translation_email\<close> renders as HTML, as the values
  interpolated into the template: model, total tokens, and per language the code, its
  token total and the rows (key, original, translated). The two cost figures are
  floating-point products and are not represented.\<close>

record report =
  rep_model :: string
  rep_total_tokens :: int
  rep_langs :: "(string \<times> int \<times> (string \<times> string \<times> string) list) list"

record email =
  mail_from :: string
  mail_to :: "string list"
  mail_html :: report
  mail_attachment :: "string list list"

datatype gh_op =
  GetRepo | GetBranch | CreateGitRef | GetContents | CreateFile | UpdateFile | GetPulls | CreatePull

datatype smtp_step = Connect | Starttls | Login | Sendmail | Quit

datatype disk_op = OpenWrite | OpenRead

text \<open>
  The environment of one run: the configuration read from the process environment, and
  what the outside world answers. \<open>chat_create n model prompt\<close> is the outcome of the
  completion request made as the \<open>n\<close>-th remote call of the run; \<open>gh_fault n op\<close> is
  \<open>Some e\<close> when the GitHub request \<open>op\<close> made as the \<open>n\<close>-th remote call fails with
  \<open>e\<close> for a reason the repository state does not explain; \<open>smtp_fault\<close> and
  \<open>disk_fault\<close> do the same for the steps of the one SMTP session and for opening the
  report file. \<open>blob_sha\<close> is the hash git gives a file body.
\<close>

record env =
  model :: string
  repo_name :: string
  TRANSLATE_LANGS :: "string option"
  EMAIL_FROM :: string
  EMAIL_TO :: string
  chat_create :: "nat \<Rightarrow> string \<Rightarrow> string \<Rightarrow> exn + response"
  gh_fault :: "nat \<Rightarrow> gh_op \<Rightarrow> exn option"
  smtp_fault :: "smtp_step \<Rightarrow> exn option"
  disk_fault :: "disk_op \<Rightarrow> exn option"
  blob_sha :: "file_body \<Rightarrow> string"

text \<open>
  The state: the two module globals \<open>translation_log\<close> and \<open>total_tokens_used\<close>, the
  console, the report file on disk (\<open>None\<close>: absent), the repository on the host
  (branches with their tip, files by (branch, path), commits, pull requests), the
  mail delivered, the number of remote calls made so far, and \<open>api_costs\<close>, the
  \<open>total_tokens\<close> figures the completion API has reported so far, in order.
\<close>

record state =
  translation_log :: "(string \<times> entry list) list"
  total_tokens_used :: int
  console :: "console_line list"
  csv_file :: "string list list option"
  branches :: "(string \<times> string) list"
  files :: "((string \<times> string) \<times> file_body) list"
  commits :: "commit list"
  pulls :: "pull list"
  outbox :: "email list"
  clock :: nat
  api_costs :: "int list"

definition TARGET_LANGS :: "env \<Rightarrow> string list" where
  "TARGET_LANGS env =
     split_on (CHR '','') (case TRANSLATE_LANGS env of None \<Rightarrow> ''es,fr,ja'' | Some v \<Rightarrow> v)"

definition LOCALE_PATH :: string where
  "LOCALE_PATH = ''locales/en.json''"

definition BRANCH_NAME :: string where
  "BRANCH_NAME = ''translations-auto''"

text \<open>The process starts with an empty log and a zero counter.\<close>

definition fresh :: "state \<Rightarrow> bool" where
  "fresh s = (translation_log s = [] \<and> total_tokens_used s = 0 \<and> api_costs s = [])"

section \<open>Translator Client\<close>

definition build_prompt :: "string \<Rightarrow> string \<Rightarrow> string" where
  "build_prompt text target_lang =
     [CHR 0x0A] @ ''Translate the following UI string from English to '' @ target_lang @ ''.''
     @ [CHR 0x0A] @ ''Keep it concise, clear, and maintain a friendly and modern tone.''
     @ [CHR 0x0A, CHR 0x0A, CHR 0x22] @ text @ [CHR 0x22, CHR 0x0A, CHR 0x0A]
     @ ''Only return the translated text, no commentary.'' @ [CHR 0x0A]"

text \<open>\<open>client.chat.completions.create\<close>: one remote call. When the API answers with
  a usage figure, that figure joins \<open>api_costs\<close>.\<close>

definition completions_create :: "env \<Rightarrow> string \<Rightarrow> state \<Rightarrow> (exn + response) \<times> state" where
  "completions_create env prompt s =
     (let r = chat_create env (clock s) (model env) prompt;
          reported = (case r of Inl e \<Rightarrow> []
                      | Inr resp \<Rightarrow> (case usage_total_tokens resp of None \<Rightarrow> [] | Some t \<Rightarrow> [t]))
      in (r, s\<lparr>clock := Suc (clock s), api_costs := api_costs s @ reported\<rparr>))"

definition translate_text :: "env \<Rightarrow> string \<Rightarrow> string \<Rightarrow> state \<Rightarrow> (exn + string) \<times> state" where
  "translate_text env text target_lang s =
     (case completions_create env (build_prompt text target_lang) s of
        (Inl e, s1) \<Rightarrow> (Inl e, s1)
      | (Inr resp, s1) \<Rightarrow>
          (case usage_total_tokens resp of
             None \<Rightarrow> (Inl AttributeError, s1)
           | Some t \<Rightarrow>
               (let s2 = s1\<lparr>total_tokens_used := total_tokens_used s1 + t\<rparr>
                in case choices resp of
                     [] \<Rightarrow> (Inl IndexError, s2)
                   | None # _ \<Rightarrow> (Inl AttributeError, s2)
                   | Some content # _ \<Rightarrow> (Inr (str_strip content), s2))))"

section \<open>Locale Translator\<close>

text \<open>\<open>translation_log.setdefault(target_lang, []).append(e)\<close>\<close>

fun setdefault_append ::
  "(string \<times> entry list) list \<Rightarrow> string \<Rightarrow> entry \<Rightarrow> (string \<times> entry list) list" where
  "setdefault_append [] lang e = [(lang, [e])]"
| "setdefault_append ((l, es) # rest) lang e =
     (if l = lang then (l, es @ [e]) # rest else (l, es) # setdefault_append rest lang e)"

text \<open>The loop of \<open>translate_locale\<close> over the remaining items, with the locals
  \<open>translations\<close> and \<open>lang_tokens\<close>; an exception of \<open>translate_text\<close> leaves it.\<close>

fun translate_items ::
  "env \<Rightarrow> string \<Rightarrow> (string \<times> string) list \<Rightarrow> (string \<times> string) list \<Rightarrow> int \<Rightarrow> state
   \<Rightarrow> (exn + (string \<times> string) list) \<times> state" where
  "translate_items env target_lang [] translations lang_tokens s = (Inr translations, s)"
| "translate_items env target_lang ((key, val) # items) translations lang_tokens s =
     (case translate_text env val target_lang s of
        (Inl e, s1) \<Rightarrow> (Inl e, s1)
      | (Inr translated, s1) \<Rightarrow>
          (let translations' = dict_set translations key translated;
               lang_tokens' = lang_tokens + int (length (str_split val))
                                          + int (length (str_split translated));
               s2 = s1\<lparr>translation_log :=
                        setdefault_append (translation_log s1) target_lang
                          (key, val, translated, lang_tokens')\<rparr>
           in translate_items env target_lang items translations' lang_tokens' s2))"

definition translate_locale ::
  "env \<Rightarrow> (string \<times> string) list \<Rightarrow> string \<Rightarrow> state \<Rightarrow> (exn + (string \<times> string) list) \<times> state" where
  "translate_locale env source_dict target_lang s =
     translate_items env target_lang source_dict [] 0 s"

text \<open>The entries the log holds for a language (none when the language is not a key).\<close>

definition log_entries :: "(string \<times> entry list) list \<Rightarrow> string \<Rightarrow> entry list" where
  "log_entries log lang = (case map_of log lang of None \<Rightarrow> [] | Some es \<Rightarrow> es)"

section \<open>Report Writer\<close>

text \<open>The inner and the outer loop of \<open>write_csv_log\<close>; \<open>rows\<close> is what the
  \<open>csv.writer\<close> has written so far, one field list per \<open>writerow\<close>.\<close>

fun write_entries :: "string \<Rightarrow> entry list \<Rightarrow> string list list \<Rightarrow> string list list" where
  "write_entries lang [] rows = rows"
| "write_entries lang ((key, original, translated, _) # entries) rows =
     write_entries lang entries (rows @ [[lang, key, original, translated]])"

fun write_langs :: "(string \<times> entry list) list \<Rightarrow> string list list \<Rightarrow> string list list" where
  "write_langs [] rows = rows"
| "write_langs ((lang, entries) # rest) rows = write_langs rest (write_entries lang entries rows)"

definition csv_header :: "string list" where
  "csv_header = [''Language'', ''Key'', ''Original Text'', ''Translated Text'']"

definition write_csv_log :: "env \<Rightarrow> state \<Rightarrow> (exn + unit) \<times> state" where
  "write_csv_log env s =
     (case disk_fault env OpenWrite of
        Some e \<Rightarrow> (Inl e, s)
      | None \<Rightarrow> (Inr (), s\<lparr>csv_file := Some (write_langs (translation_log s) ([] @ [csv_header]))\<rparr>))"

section \<open>Report Mailer\<close>

definition lang_total_tokens :: "entry list \<Rightarrow> int" where
  "lang_total_tokens entries = (if entries \<noteq> [] then entry_tokens (last entries) else 0)"

definition build_report :: "env \<Rightarrow> state \<Rightarrow> report" where
  "build_report env s =
     \<lparr>rep_model = model env,
      rep_total_tokens = total_tokens_used s,
      rep_langs = map (\<lambda>(lang, entries).
                    (lang, lang_total_tokens entries,
                     map (\<lambda>(key, original, translated, _). (key, original, translated)) entries))
                  (translation_log s)\<rparr>"

text \<open>\<open>open(CSV_LOG_FILE, "rb")\<close> and \<open>f.read()\<close>\<close>

definition read_csv_file :: "env \<Rightarrow> state \<Rightarrow> (exn + string list list) \<times> state" where
  "read_csv_file env s =
     (case disk_fault env OpenRead of
        Some e \<Rightarrow> (Inl e, s)
      | None \<Rightarrow> (case csv_file s of
                  None \<Rightarrow> (Inl (Fault ''FileNotFoundError''), s)
                | Some rows \<Rightarrow> (Inr rows, s)))"

text \<open>The body of the \<open>with smtplib.SMTP(...) as server\<close> block.\<close>

definition smtp_body :: "env \<Rightarrow> email \<Rightarrow> state \<Rightarrow> (exn + unit) \<times> state" where
  "smtp_body env msg s =
     (case smtp_fault env Starttls of
        Some e \<Rightarrow> (Inl e, s)
      | None \<Rightarrow>
         (case smtp_fault env Login of
            Some e \<Rightarrow> (Inl e, s)
          | None \<Rightarrow>
             (case smtp_fault env Sendmail of
                Some e \<Rightarrow> (Inl e, s)
              | None \<Rightarrow> (Inr (), s\<lparr>outbox := outbox s @ [msg],
                                   console := console s @ [EmailSent (EMAIL_TO env)]\<rparr>))))"

text \<open>The \<open>with\<close> statement: the constructor connects; leaving the block, normally or
  by an exception, sends QUIT, whose failure replaces the outcome of the block unless it
  is \<open>SMTPServerDisconnected\<close>, which \<open>SMTP.__exit__\<close> passes over.\<close>

definition smtp_session :: "env \<Rightarrow> email \<Rightarrow> state \<Rightarrow> (exn + unit) \<times> state" where
  "smtp_session env msg s =
     (case smtp_fault env Connect of
        Some e \<Rightarrow> (Inl e, s)
      | None \<Rightarrow>
         (case smtp_body env msg s of
            (r, s1) \<Rightarrow>
              (case smtp_fault env Quit of
                 None \<Rightarrow> (r, s1)
               | Some e \<Rightarrow> (if e = SMTPServerDisconnected then (r, s1) else (Inl e, s1)))))"

definition send_translation_email :: "env \<Rightarrow> state \<Rightarrow> (exn + unit) \<times> state" where
  "send_translation_email env s =
     (let html = build_report env s in
      case write_csv_log env s of
        (Inl e, s1) \<Rightarrow> (Inl e, s1)
      | (Inr _, s1) \<Rightarrow>
         (case read_csv_file env s1 of
            (Inl e, s2) \<Rightarrow> (Inl e, s2)
          | (Inr payload, s2) \<Rightarrow>
             (let msg = \<lparr>mail_from = EMAIL_FROM env,
                         mail_to = split_on (CHR '','') (EMAIL_TO env),
                         mail_html = html,
                         mail_attachment = payload\<rparr>
              in case smtp_session env msg s2 of
                   (Inl e, s3) \<Rightarrow> (Inr (), s3\<lparr>console := console s3 @ [EmailFailed e]\<rparr>)
                 | (Inr _, s3) \<Rightarrow> (Inr (), s3))))"

section \<open>The repository host\<close>

text \<open>Every request is one remote call, which the environment may fail.\<close>

definition gh_request :: "env \<Rightarrow> gh_op \<Rightarrow> state \<Rightarrow> exn option \<times> state" where
  "gh_request env op s = (gh_fault env (clock s) op, s\<lparr>clock := Suc (clock s)\<rparr>)"

definition get_repo :: "env \<Rightarrow> state \<Rightarrow> (exn + unit) \<times> state" where
  "get_repo env s =
     (case gh_request env GetRepo s of
        (Some e, s1) \<Rightarrow> (Inl e, s1)
      | (None, s1) \<Rightarrow> (Inr (), s1))"

text \<open>\<open>repo.get_branch(name).commit.sha\<close>\<close>

definition get_branch :: "env \<Rightarrow> string \<Rightarrow> state \<Rightarrow> (exn + string) \<times> state" where
  "get_branch env name s =
     (case gh_request env GetBranch s of
        (Some e, s1) \<Rightarrow> (Inl e, s1)
      | (None, s1) \<Rightarrow>
         (case map_of (branches s1) name of
            None \<Rightarrow> (Inl (GithubException 404), s1)
          | Some sha \<Rightarrow> (Inr sha, s1)))"

text \<open>\<open>repo.create_git_ref(ref, sha)\<close> with \<open>ref = refs/heads/<name>\<close> and \<open>sha\<close> the
  tip of main: rejected (422) when the branch exists; the new branch starts with the
  files of main.\<close>

definition create_git_ref :: "env \<Rightarrow> string \<Rightarrow> string \<Rightarrow> state \<Rightarrow> (exn + unit) \<times> state" where
  "create_git_ref env ref sha s =
     (case gh_request env CreateGitRef s of
        (Some e, s1) \<Rightarrow> (Inl e, s1)
      | (None, s1) \<Rightarrow>
         (let name = drop (length ''refs/heads/'') ref in
          if map_of (branches s1) name \<noteq> None then (Inl (GithubException 422), s1)
          else (Inr (), s1\<lparr>branches := branches s1 @ [(name, sha)],
                           files := files s1 @
                             map (\<lambda>((b, p), body). ((name, p), body))
                               (filter (\<lambda>((b, p), body). b = ''main'') (files s1))\<rparr>)))"

text \<open>\<open>repo.get_contents(path, ref)\<close>: the body and its revision marker, or 404.\<close>

definition get_contents ::
  "env \<Rightarrow> string \<Rightarrow> string \<Rightarrow> state \<Rightarrow> (exn + file_body \<times> string) \<times> state" where
  "get_contents env path ref s =
     (case gh_request env GetContents s of
        (Some e, s1) \<Rightarrow> (Inl e, s1)
      | (None, s1) \<Rightarrow>
         (case map_of (files s1) (ref, path) of
            None \<Rightarrow> (Inl (GithubException 404), s1)
          | Some body \<Rightarrow> (Inr (body, blob_sha env body), s1)))"

text \<open>\<open>json.loads\<close> of an object: later members overwrite earlier ones of the same
  name.\<close>

fun json_loads :: "file_body \<Rightarrow> exn + (string \<times> string) list" where
  "json_loads (NotJson t) = Inl JSONDecodeError"
| "json_loads (JsonObject members) = Inr (foldl (\<lambda>d (k, v). dict_set d k v) [] members)"

definition the_author :: "string \<times> string" where
  "the_author = (''Clinton'', ''clinton@ringstone.ai'')"

text \<open>\<open>repo.create_file\<close>: 404 without the branch, 422 when the path is taken.\<close>

definition create_file ::
  "env \<Rightarrow> string \<Rightarrow> string \<Rightarrow> file_body \<Rightarrow> string \<Rightarrow> string \<times> string \<Rightarrow> state
   \<Rightarrow> (exn + unit) \<times> state" where
  "create_file env path message content branch author s =
     (case gh_request env CreateFile s of
        (Some e, s1) \<Rightarrow> (Inl e, s1)
      | (None, s1) \<Rightarrow>
         (if map_of (branches s1) branch = None then (Inl (GithubException 404), s1)
          else if map_of (files s1) (branch, path) \<noteq> None then (Inl (GithubException 422), s1)
          else (Inr (), s1\<lparr>files := files s1 @ [((branch, path), content)],
                           commits := commits s1 @
                             [\<lparr>c_branch = branch, c_path = path, c_message = message,
                               c_author = author\<rparr>]\<rparr>)))"

text \<open>\<open>repo.update_file\<close>: 404 without the file, 409 when \<open>sha\<close> is not the marker of
  the file as it is now.\<close>

definition update_file ::
  "env \<Rightarrow> string \<Rightarrow> string \<Rightarrow> file_body \<Rightarrow> string \<Rightarrow> string \<Rightarrow> string \<times> string \<Rightarrow> state
   \<Rightarrow> (exn + unit) \<times> state" where
  "update_file env path message content sha branch author s =
     (case gh_request env UpdateFile s of
        (Some e, s1) \<Rightarrow> (Inl e, s1)
      | (None, s1) \<Rightarrow>
         (case map_of (files s1) (branch, path) of
            None \<Rightarrow> (Inl (GithubException 404), s1)
          | Some body \<Rightarrow>
             (if blob_sha env body \<noteq> sha then (Inl (GithubException 409), s1)
              else (Inr (), s1\<lparr>files := dict_set (files s1) (branch, path) content,
                               commits := commits s1 @
                                 [\<lparr>c_branch = branch, c_path = path, c_message = message,
                                   c_author = author\<rparr>]\<rparr>))))"

text \<open>\<open>repo.get_pulls(state="open", head, base)\<close>, read through \<open>totalCount\<close>.\<close>

definition pr_matches :: "string \<Rightarrow> string \<Rightarrow> pull \<Rightarrow> bool" where
  "pr_matches head base p = (pr_open p \<and> pr_head p = head \<and> pr_base p = base)"

definition get_pulls :: "env \<Rightarrow> string \<Rightarrow> string \<Rightarrow> state \<Rightarrow> (exn + pull list) \<times> state" where
  "get_pulls env head base s =
     (case gh_request env GetPulls s of
        (Some e, s1) \<Rightarrow> (Inl e, s1)
      | (None, s1) \<Rightarrow> (Inr (filter (pr_matches head base) (pulls s1)), s1))"

definition repo_owner :: "env \<Rightarrow> string" where
  "repo_owner env = takeWhile (\<lambda>c. c \<noteq> CHR ''/'') (repo_name env)"

text \<open>\<open>repo.create_pull\<close>: the head of the new pull request is labelled
  \<open>owner:branch\<close>; 422 when an open one with that head and base exists.\<close>

definition create_pull ::
  "env \<Rightarrow> string \<Rightarrow> string \<Rightarrow> string \<Rightarrow> string \<Rightarrow> state \<Rightarrow> (exn + unit) \<times> state" where
  "create_pull env title body head base s =
     (case gh_request env CreatePull s of
        (Some e, s1) \<Rightarrow> (Inl e, s1)
      | (None, s1) \<Rightarrow>
         (let label = repo_owner env @ '':'' @ head in
          if list_ex (pr_matches label base) (pulls s1) then (Inl (GithubException 422), s1)
          else (Inr (), s1\<lparr>pulls := pulls s1 @
                             [\<lparr>pr_open = True, pr_head = label, pr_base = base,
                               pr_title = title, pr_body = body\<rparr>]\<rparr>)))"

section \<open>Repository Publisher\<close>

text \<open>Lines 128-131: any exception of \<open>create_git_ref\<close> is caught and answered by
  the message that the branch exists.\<close>

definition ensure_branch :: "env \<Rightarrow> string \<Rightarrow> state \<Rightarrow> state" where
  "ensure_branch env sha s =
     (case create_git_ref env (''refs/heads/'' @ BRANCH_NAME) sha s of
        (Inl e, s1) \<Rightarrow> s1\<lparr>console := console s1 @ [BranchExists BRANCH_NAME]\<rparr>
      | (Inr _, s1) \<Rightarrow> s1)"

text \<open>Lines 142-158: create the file; on any exception, update it instead, with the
  marker that \<open>get_contents\<close> returns.\<close>

definition publish_file :: "env \<Rightarrow> string \<Rightarrow> file_body \<Rightarrow> state \<Rightarrow> (exn + unit) \<times> state" where
  "publish_file env lang json_blob s =
     (let new_file_path = ''locales/'' @ lang @ ''.json'' in
      case create_file env new_file_path (''Add '' @ lang @ '' translation'') json_blob
             BRANCH_NAME the_author s of
        (Inr _, s1) \<Rightarrow> (Inr (), s1)
      | (Inl _, s1) \<Rightarrow>
         (case get_contents env new_file_path BRANCH_NAME s1 of
            (Inl e, s2) \<Rightarrow> (Inl e, s2)
          | (Inr (body, sha), s2) \<Rightarrow>
              update_file env new_file_path (''Update '' @ lang @ '' translation'') json_blob
                sha BRANCH_NAME the_author s2))"

text \<open>Lines 136-158: the loop over the target languages.\<close>

fun translate_langs ::
  "env \<Rightarrow> (string \<times> string) list \<Rightarrow> string list \<Rightarrow> state \<Rightarrow> (exn + unit) \<times> state" where
  "translate_langs env source_data [] s = (Inr (), s)"
| "translate_langs env source_data (lang # langs) s =
     (case translate_locale env source_data lang (s\<lparr>console := console s @ [Translating lang]\<rparr>) of
        (Inl e, s1) \<Rightarrow> (Inl e, s1)
      | (Inr translated, s1) \<Rightarrow>
         (case publish_file env lang (JsonObject translated) s1 of
            (Inl e, s2) \<Rightarrow> (Inl e, s2)
          | (Inr _, s2) \<Rightarrow> translate_langs env source_data langs s2))"

definition pr_title_text :: string where
  "pr_title_text = ''Automated translations via RingStone MVP Demo''"

definition pr_body_text :: string where
  "pr_body_text = ''This PR was auto-generated using LLM-based translation.''"

text \<open>Lines 160-169.\<close>

definition ensure_pull :: "env \<Rightarrow> state \<Rightarrow> (exn + unit) \<times> state" where
  "ensure_pull env s =
     (case get_pulls env (''ClintUK:'' @ BRANCH_NAME) ''main'' s of
        (Inl e, s1) \<Rightarrow> (Inl e, s1)
      | (Inr existing_prs, s1) \<Rightarrow>
         (if length existing_prs = 0
          then create_pull env pr_title_text pr_body_text BRANCH_NAME ''main'' s1
          else (Inr (), s1\<lparr>console := console s1 @ [PRExists]\<rparr>)))"

text \<open>Lines 133-134: fetch and parse the catalog.\<close>

definition load_catalog :: "env \<Rightarrow> state \<Rightarrow> (exn + (string \<times> string) list) \<times> state" where
  "load_catalog env s =
     (case get_contents env LOCALE_PATH ''main'' s of
        (Inl e, s1) \<Rightarrow> (Inl e, s1)
      | (Inr (body, sha), s1) \<Rightarrow> (json_loads body, s1))"

definition push_translations :: "env \<Rightarrow> state \<Rightarrow> (exn + unit) \<times> state" where
  "push_translations env s =
     (case get_repo env s of
        (Inl e, s1) \<Rightarrow> (Inl e, s1)
      | (Inr _, s1) \<Rightarrow>
         (case get_branch env ''main'' s1 of
            (Inl e, s2) \<Rightarrow> (Inl e, s2)
          | (Inr sha, s2) \<Rightarrow>
             (case load_catalog env (ensure_branch env sha s2) of
                (Inl e, s4) \<Rightarrow> (Inl e, s4)
              | (Inr source_data, s4) \<Rightarrow>
                 (case translate_langs env source_data (TARGET_LANGS env) s4 of
                    (Inl e, s5) \<Rightarrow> (Inl e, s5)
                  | (Inr _, s5) \<Rightarrow>
                     (case ensure_pull env s5 of
                        (Inl e, s6) \<Rightarrow> (Inl e, s6)
                      | (Inr _, s6) \<Rightarrow> send_translation_email env s6)))))"

section \<open>Notions used to state the properties\<close>

definition entry_original :: "entry \<Rightarrow> string" where
  "entry_original e = fst (snd e)"

definition entry_translated :: "entry \<Rightarrow> string" where
  "entry_translated e = fst (snd (snd e))"

text \<open>The token-count proxy of one entry: the number of whitespace-separated words of
  the original plus that of the translation.\<close>

definition entry_words :: "entry \<Rightarrow> int" where
  "entry_words e =
     int (length (str_split (entry_original e))) + int (length (str_split (entry_translated e)))"

text \<open>The entries one call of \<open>translate_locale\<close> appends, given the translations
  \<open>ts\<close> it received and the running total \<open>acc\<close> it started from.\<close>

fun new_entries :: "(string \<times> string) list \<Rightarrow> string list \<Rightarrow> int \<Rightarrow> entry list" where
  "new_entries ((key, val) # items) (t # ts) acc =
     (key, val, t, acc + int (length (str_split val)) + int (length (str_split t)))
       # new_entries items ts (acc + int (length (str_split val)) + int (length (str_split t)))"
| "new_entries _ _ acc = []"

text \<open>The number of entries of a log, over all its languages.\<close>

definition log_size :: "(string \<times> entry list) list \<Rightarrow> nat" where
  "log_size log = sum_list (map (\<lambda>(lang, entries). length entries) log)"

text \<open>Between \<open>s\<close> and \<open>s'\<close> the API reported the costs \<open>new\<close>, and the counter
  grew by their sum.\<close>

definition charged :: "env \<Rightarrow> state \<Rightarrow> state \<Rightarrow> bool" where
  "charged env s s' =
     (\<exists>new. api_costs s' = api_costs s @ new
          \<and> total_tokens_used s' = total_tokens_used s + sum_list new
          \<and> (\<forall>t \<in> set new. \<exists>n m p r. chat_create env n m p = Inr r
                               \<and> usage_total_tokens r = Some t))"

text \<open>Every figure the completion API reports is a count.\<close>

definition costs_nonneg :: "env \<Rightarrow> bool" where
  "costs_nonneg env =
     (\<forall>n m p r t. chat_create env n m p = Inr r \<and> usage_total_tokens r = Some t \<longrightarrow> 0 \<le> t)"

text \<open>The module globals and the record of reported costs are the same in both states.\<close>

definition same_globals :: "state \<Rightarrow> state \<Rightarrow> bool" where
  "same_globals s s' =
     (translation_log s' = translation_log s \<and> total_tokens_used s' = total_tokens_used s
      \<and> api_costs s' = api_costs s)"

text \<open>The data row of one entry, and the data rows of a log: language by language in
  the order of the log, entries in their order within the language.\<close>

definition entry_row :: "string \<Rightarrow> entry \<Rightarrow> string list" where
  "entry_row lang e = [lang, entry_key e, entry_original e, entry_translated e]"

definition log_rows :: "(string \<times> entry list) list \<Rightarrow> string list list" where
  "log_rows log = concat (map (\<lambda>(lang, entries). map (entry_row lang) entries) log)"

text \<open>The path of the output file of a language, and the messages of its commits.\<close>

definition locale_path :: "string \<Rightarrow> string" where
  "locale_path lang = ''locales/'' @ lang @ ''.json''"

definition add_message :: "string \<Rightarrow> string" where
  "add_message lang = ''Add '' @ lang @ '' translation''"

definition update_message :: "string \<Rightarrow> string" where
  "update_message lang = ''Update '' @ lang @ '' translation''"

text \<open>The host fails no request for reasons of its own, and the completion API
  answers every request with a usage figure and a first choice that has content.\<close>

definition host_reliable :: "env \<Rightarrow> bool" where
  "host_reliable env = (\<forall>n op. gh_fault env n op = None)"

definition llm_answers :: "env \<Rightarrow> bool" where
  "llm_answers env =
     (\<forall>n m p. \<exists>t content rest.
        chat_create env n m p = Inr \<lparr>usage_total_tokens = Some t, choices = Some content # rest\<rparr>)"

text \<open>The pull request that \<open>push_translations\<close> opens.\<close>

definition new_pull :: "env \<Rightarrow> pull" where
  "new_pull env =
     \<lparr>pr_open = True, pr_head = repo_owner env @ '':'' @ BRANCH_NAME, pr_base = ''main'',
      pr_title = pr_title_text, pr_body = pr_body_text\<rparr>"

section \<open>Concrete runs\<close>

text \<open>A completion API that answers every request with the same padded text and
  reports \<open>n + 20\<close> tokens for the \<open>n\<close>-th remote call; a host, a mail transport and a
  disk that never fail.\<close>

definition demo_llm :: "nat \<Rightarrow> string \<Rightarrow> string \<Rightarrow> exn + response" where
  "demo_llm n m prompt =
     Inr \<lparr>usage_total_tokens = Some (int n + 20), choices = [Some '' Hola a todos '']\<rparr>"

definition demo_env :: env where
  "demo_env =
     \<lparr>model = ''gpt-4'', repo_name = ''ClintUK/app'', TRANSLATE_LANGS = Some ''es,fr'',
      EMAIL_FROM = ''a@x.org'', EMAIL_TO = ''b@x.org'',
      chat_create = demo_llm, gh_fault = (\<lambda>n op. None), smtp_fault = (\<lambda>step. None),
      disk_fault = (\<lambda>op. None),
      blob_sha = (\<lambda>b. case b of JsonObject kv \<Rightarrow> concat (map fst kv) | NotJson t \<Rightarrow> t)\<rparr>"

text \<open>The same, asked for Spanish twice.\<close>

definition dup_env :: env where
  "dup_env = demo_env\<lparr>TRANSLATE_LANGS := Some ''es,es''\<rparr>"

definition demo_catalog :: "(string \<times> string) list" where
  "demo_catalog = [(''greeting'', ''Hello''), (''bye'', ''Good bye'')]"

text \<open>Process start, against a repository that holds only the catalog on main.\<close>

definition demo_state :: state where
  "demo_state =
     \<lparr>translation_log = [], total_tokens_used = 0, console = [], csv_file = None,
      branches = [(''main'', ''c0ffee'')],
      files = [((''main'', ''locales/en.json''), JsonObject [(''greeting'', ''Hello'')])],
      commits = [], pulls = [], outbox = [], clock = 0, api_costs = []\<rparr>"

definition demo_translated :: state where
  "demo_translated = snd (translate_locale demo_env demo_catalog ''es'' demo_state)"

definition demo_translated_twice :: state where
  "demo_translated_twice = snd (translate_locale demo_env demo_catalog ''es'' demo_translated)"

definition demo_after :: state where
  "demo_after = snd (push_translations demo_env demo_state)"

definition dup_after :: state where
  "dup_after = snd (push_translations dup_env demo_state)"

text \<open>A mail server that rejects the login.\<close>

definition mailfail_env :: env where
  "mailfail_env =
     demo_env\<lparr>smtp_fault := (\<lambda>step. if step = Login then Some (Fault ''535 auth'') else None)\<rparr>"

text \<open>A host that refuses every \<open>create_git_ref\<close> with 403, and one that refuses every
  \<open>create_file\<close> with 403.\<close>

definition noref_env :: env where
  "noref_env =
     demo_env\<lparr>gh_fault := (\<lambda>n op. if op = CreateGitRef then Some (GithubException 403) else None)\<rparr>"

definition nocreate_env :: env where
  "nocreate_env =
     demo_env\<lparr>gh_fault := (\<lambda>n op. if op = CreateFile then Some (GithubException 403) else None)\<rparr>"

text \<open>Process start of a later run: the working branch, the two output files and the
  pull request of an earlier run are there.\<close>

definition rerun_state :: state where
  "rerun_state =
     \<lparr>translation_log = [], total_tokens_used = 0, console = [], csv_file = None,
      branches = [(''main'', ''c0ffee''), (''translations-auto'', ''c0ffee'')],
      files = [((''main'', ''locales/en.json''), JsonObject [(''greeting'', ''Hello'')]),
               ((''translations-auto'', ''locales/en.json''), JsonObject [(''greeting'', ''Hello'')]),
               ((''translations-auto'', ''locales/es.json''), JsonObject [(''greeting'', ''Hola'')]),
               ((''translations-auto'', ''locales/fr.json''), JsonObject [(''greeting'', ''Salut'')])],
      commits = [],
      pulls = [\<lparr>pr_open = True, pr_head = ''ClintUK:translations-auto'', pr_base = ''main'',
                pr_title = ''Automated translations via RingStone MVP Demo'',
                pr_body = ''This PR was auto-generated using LLM-based translation.''\<rparr>],
      outbox = [], clock = 0, api_costs = []\<rparr>"

definition demo_blob :: file_body where
  "demo_blob = JsonObject [(''greeting'', ''Hola a todos'')]"

definition ja_created :: state where
  "ja_created =
     snd (create_file demo_env (locale_path ''ja'') (add_message ''ja'') demo_blob BRANCH_NAME
            the_author rerun_state)"

definition ja_translated :: state where
  "ja_translated =
     snd (translate_locale nocreate_env [(''greeting'', ''Hello'')] ''ja''
            (rerun_state\<lparr>console := console rerun_state @ [Translating ''ja'']\<rparr>))"

definition ja_failed :: state where
  "ja_failed = snd (publish_file nocreate_env ''ja'' demo_blob ja_translated)"

text \<open>The same environment with a repository of another owner, and the process start
  of a second run there: the working branch, the two output files and the pull
  request that the first run opened.\<close>

definition acme_env :: env where
  "acme_env = demo_env\<lparr>repo_name := ''acme/app''\<rparr>"

definition acme_rerun_state :: state where
  "acme_rerun_state =
     rerun_state\<lparr>pulls :=
       [\<lparr>pr_open = True, pr_head = ''acme:translations-auto'', pr_base = ''main'',
         pr_title = ''Automated translations via RingStone MVP Demo'',
         pr_body = ''This PR was auto-generated using LLM-based translation.''\<rparr>]\<rparr>"

section \<open>Properties\<close>

subsection \<open>Dictionaries and the log\<close>

lemma set_keys_dict_set: "fst ` set (dict_set d k v) = insert k (fst ` set d)"
  by (induction d k v rule: dict_set.induct) auto

lemma distinct_keys_dict_set: "distinct (map fst d) \<Longrightarrow> distinct (map fst (dict_set d k v))"
  by (induction d k v rule: dict_set.induct) (auto simp: set_keys_dict_set)

lemma dict_set_fresh_key: "k \<notin> set (map fst d) \<Longrightarrow> dict_set d k v = d @ [(k, v)]"
  by (induction d k v rule: dict_set.induct) auto

lemma keys_dict_set_present: "k \<in> set (map fst d) \<Longrightarrow> map fst (dict_set d k v) = map fst d"
  by (induction d k v rule: dict_set.induct) auto

lemma map_of_dict_set: "map_of (dict_set d k v) = (map_of d)(k \<mapsto> v)"
  by (induction d k v rule: dict_set.induct) (auto simp: fun_eq_iff)

lemma set_keys_fold_dict_set:
  "length ts = length ks \<Longrightarrow>
   set (map fst (fold (\<lambda>(k, t) d. dict_set d k t) (zip ks ts) tr)) = set (map fst tr) \<union> set ks"
  by (induction ks ts arbitrary: tr rule: list_induct2') (auto simp: set_keys_dict_set)

lemma distinct_keys_fold_dict_set:
  "distinct (map fst tr) \<Longrightarrow>
   distinct (map fst (fold (\<lambda>(k, t) d. dict_set d k t) kts tr))"
  by (induction kts arbitrary: tr) (auto simp: distinct_keys_dict_set)

lemma keys_fold_dict_set_distinct:
  "length ts = length ks \<Longrightarrow> distinct (map fst tr @ ks) \<Longrightarrow>
   map fst (fold (\<lambda>(k, t) d. dict_set d k t) (zip ks ts) tr) = map fst tr @ ks"
  by (induction ks ts arbitrary: tr rule: list_induct2') (auto simp: dict_set_fresh_key)

lemma map_of_setdefault_append:
  "map_of (setdefault_append log lang e) = (map_of log)(lang \<mapsto> log_entries log lang @ [e])"
  by (induction log lang e rule: setdefault_append.induct) (auto simp: log_entries_def fun_eq_iff)

lemma log_entries_setdefault_append:
  "log_entries (setdefault_append log lang e) l =
     (if l = lang then log_entries log lang @ [e] else log_entries log l)"
  by (simp add: log_entries_def map_of_setdefault_append)

lemma log_size_setdefault_append:
  "log_size (setdefault_append log lang e) = Suc (log_size log)"
  by (induction log lang e rule: setdefault_append.induct) (auto simp: log_size_def)

lemma length_new_entries:
  "length ts = length items \<Longrightarrow> length (new_entries items ts acc) = length items"
  by (induction items ts acc rule: new_entries.induct) auto

lemma keys_new_entries:
  "length ts = length items \<Longrightarrow> map entry_key (new_entries items ts acc) = map fst items"
  by (induction items ts acc rule: new_entries.induct) (auto simp: entry_key_def)

lemma originals_new_entries:
  "length ts = length items \<Longrightarrow> map entry_original (new_entries items ts acc) = map snd items"
  by (induction items ts acc rule: new_entries.induct) (auto simp: entry_original_def)

lemma tokens_new_entries:
  "length ts = length items \<Longrightarrow> i < length items \<Longrightarrow>
   entry_tokens (new_entries items ts acc ! i) =
     acc + sum_list (map entry_words (take (Suc i) (new_entries items ts acc)))"
proof (induction items ts acc arbitrary: i rule: new_entries.induct)
  case (1 key val items t ts acc)
  show ?case
  proof (cases i)
    case 0
    then show ?thesis
      by (simp add: entry_tokens_def entry_words_def entry_original_def entry_translated_def)
  next
    case (Suc j)
    with 1 show ?thesis
      by (simp add: entry_words_def entry_original_def entry_translated_def)
  qed
qed simp_all

subsection \<open>Translator Client and Locale Translator\<close>

lemma charged_refl: "charged env s s"
  by (simp add: charged_def)

lemma charged_trans: "charged env s s1 \<Longrightarrow> charged env s1 s2 \<Longrightarrow> charged env s s2"
  unfolding charged_def
proof (elim exE conjE)
  fix a b
  assume a: "api_costs s1 = api_costs s @ a" "total_tokens_used s1 = total_tokens_used s + sum_list a"
    "\<forall>t\<in>set a. \<exists>n m p r. chat_create env n m p = Inr r \<and> usage_total_tokens r = Some t"
  assume b: "api_costs s2 = api_costs s1 @ b" "total_tokens_used s2 = total_tokens_used s1 + sum_list b"
    "\<forall>t\<in>set b. \<exists>n m p r. chat_create env n m p = Inr r \<and> usage_total_tokens r = Some t"
  show "\<exists>new. api_costs s2 = api_costs s @ new \<and>
          total_tokens_used s2 = total_tokens_used s + sum_list new \<and>
          (\<forall>t\<in>set new. \<exists>n m p r. chat_create env n m p = Inr r \<and> usage_total_tokens r = Some t)"
    using a b by (intro exI[of _ "a @ b"]) auto
qed

lemma charged_same:
  "api_costs s' = api_costs s \<Longrightarrow> total_tokens_used s' = total_tokens_used s \<Longrightarrow> charged env s s'"
  by (simp add: charged_def)

lemma charged_sum:
  "charged env s s' \<Longrightarrow> total_tokens_used s = sum_list (api_costs s) \<Longrightarrow>
   total_tokens_used s' = sum_list (api_costs s')"
  by (auto simp: charged_def)

lemma charged_mono:
  "charged env s s' \<Longrightarrow> costs_nonneg env \<Longrightarrow> total_tokens_used s \<le> total_tokens_used s'"
proof -
  assume c: "charged env s s'" and n: "costs_nonneg env"
  from c obtain new where new: "total_tokens_used s' = total_tokens_used s + sum_list new"
    "\<forall>t \<in> set new. \<exists>n m p r. chat_create env n m p = Inr r \<and> usage_total_tokens r = Some t"
    by (auto simp: charged_def)
  from new(2) n have "\<forall>t \<in> set new. 0 \<le> t"
    unfolding costs_nonneg_def by blast
  then have "0 \<le> sum_list new" by (simp add: sum_list_nonneg)
  with new(1) show ?thesis by simp
qed

lemma translate_text_frame:
  "translate_text env text lang s = (r, s') \<Longrightarrow>
   translation_log s' = translation_log s \<and> console s' = console s \<and> csv_file s' = csv_file s
   \<and> branches s' = branches s \<and> files s' = files s \<and> commits s' = commits s
   \<and> pulls s' = pulls s \<and> outbox s' = outbox s"
  by (auto simp: translate_text_def completions_create_def Let_def
      split: sum.splits option.splits list.splits prod.splits)

lemma completions_create_charged:
  "completions_create env prompt s = (Inr resp, s1) \<Longrightarrow> usage_total_tokens resp = Some t \<Longrightarrow>
   charged env s (s1\<lparr>total_tokens_used := total_tokens_used s1 + t\<rparr>)"
  unfolding completions_create_def Let_def charged_def
  by (intro exI[of _ "[t]"]) auto

lemma completions_create_uncharged:
  "completions_create env prompt s = (r, s1) \<Longrightarrow>
   (\<forall>resp. r = Inr resp \<longrightarrow> usage_total_tokens resp = None) \<Longrightarrow> charged env s s1"
  unfolding completions_create_def Let_def
  by (cases r) (auto intro!: charged_same split: option.splits)

lemma translate_text_charged:
  "translate_text env text lang s = (r, s') \<Longrightarrow> charged env s s'"
proof -
  assume tt: "translate_text env text lang s = (r, s')"
  obtain r1 s1 where cc: "completions_create env (build_prompt text lang) s = (r1, s1)"
    by force
  show ?thesis
  proof (cases r1)
    case (Inl e)
    with tt cc have "s' = s1" by (simp add: translate_text_def)
    with completions_create_uncharged[OF cc] Inl show ?thesis by simp
  next
    case (Inr resp)
    show ?thesis
    proof (cases "usage_total_tokens resp")
      case None
      with tt cc Inr have "s' = s1" by (simp add: translate_text_def)
      with completions_create_uncharged[OF cc] Inr None show ?thesis by simp
    next
      case (Some t)
      with tt cc Inr have "s' = s1\<lparr>total_tokens_used := total_tokens_used s1 + t\<rparr>"
        by (auto simp: translate_text_def Let_def split: list.splits option.splits)
      with completions_create_charged[OF cc[unfolded Inr] Some] show ?thesis by simp
    qed
  qed
qed

lemma translate_items_frame:
  "translate_items env lang items tr acc s = (r, s') \<Longrightarrow>
   console s' = console s \<and> csv_file s' = csv_file s
   \<and> branches s' = branches s \<and> files s' = files s \<and> commits s' = commits s
   \<and> pulls s' = pulls s \<and> outbox s' = outbox s"
proof (induction items arbitrary: tr acc s)
  case Nil
  then show ?case by simp
next
  case (Cons kv items)
  obtain key val where kv: "kv = (key, val)" by (cases kv)
  obtain r1 s1 where tt: "translate_text env val lang s = (r1, s1)" by force
  note f1 = translate_text_frame[OF tt]
  show ?case
  proof (cases r1)
    case (Inl e)
    with Cons.prems kv tt f1 show ?thesis by simp
  next
    case (Inr t)
    with Cons.prems kv tt obtain acc' s2 where
      rec: "translate_items env lang items (dict_set tr key t) acc' s2 = (r, s')"
      and s2: "s2 = s1\<lparr>translation_log := setdefault_append (translation_log s1) lang (key, val, t, acc')\<rparr>"
      by (simp add: Let_def)
    from Cons.IH[OF rec] s2 f1 show ?thesis by simp
  qed
qed

lemma translate_items_charged:
  "translate_items env lang items tr acc s = (r, s') \<Longrightarrow> charged env s s'"
proof (induction items arbitrary: tr acc s)
  case Nil
  then show ?case by (simp add: charged_refl)
next
  case (Cons kv items)
  obtain key val where kv: "kv = (key, val)" by (cases kv)
  obtain r1 s1 where tt: "translate_text env val lang s = (r1, s1)" by force
  note c1 = translate_text_charged[OF tt]
  show ?case
  proof (cases r1)
    case (Inl e)
    with Cons.prems kv tt c1 show ?thesis by simp
  next
    case (Inr t)
    with Cons.prems kv tt obtain acc' s2 where
      rec: "translate_items env lang items (dict_set tr key t) acc' s2 = (r, s')"
      and s2: "s2 = s1\<lparr>translation_log := setdefault_append (translation_log s1) lang (key, val, t, acc')\<rparr>"
      by (simp add: Let_def)
    have "charged env s1 s2" using s2 by (simp add: charged_same)
    with c1 Cons.IH[OF rec] show ?thesis by (blast intro: charged_trans)
  qed
qed

lemma translate_items_Inr:
  "translate_items env lang items tr acc s = (Inr tr', s') \<Longrightarrow>
   \<exists>ts. length ts = length items \<and>
        (\<forall>l. log_entries (translation_log s') l =
             (if l = lang then log_entries (translation_log s) lang @ new_entries items ts acc
              else log_entries (translation_log s) l)) \<and>
        tr' = fold (\<lambda>(k, t) d. dict_set d k t) (zip (map fst items) ts) tr \<and>
        log_size (translation_log s') = log_size (translation_log s) + length items"
proof (induction items arbitrary: tr acc s)
  case Nil
  then show ?case by simp
next
  case (Cons kv items)
  obtain key val where kv: "kv = (key, val)" by (cases kv)
  from Cons.prems kv obtain t s1 where
    tt: "translate_text env val lang s = (Inr t, s1)"
    by (auto split: prod.splits sum.splits)
  let ?acc = "acc + int (length (str_split val)) + int (length (str_split t))"
  let ?s2 = "s1\<lparr>translation_log := setdefault_append (translation_log s1) lang (key, val, t, ?acc)\<rparr>"
  from Cons.prems kv tt
  have rec: "translate_items env lang items (dict_set tr key t) ?acc ?s2 = (Inr tr', s')"
    by (simp add: Let_def)
  from Cons.IH[OF rec] obtain ts where ts: "length ts = length items"
    "\<forall>l. log_entries (translation_log s') l =
             (if l = lang then log_entries (translation_log ?s2) lang @ new_entries items ts ?acc
              else log_entries (translation_log ?s2) l)"
    "tr' = fold (\<lambda>(k, t) d. dict_set d k t) (zip (map fst items) ts) (dict_set tr key t)"
    "log_size (translation_log s') = log_size (translation_log ?s2) + length items"
    by blast
  have l1: "translation_log s1 = translation_log s"
    using translate_text_frame[OF tt] by simp
  show ?case
    using ts l1 kv
    by (intro exI[of _ "t # ts"])
       (simp add: log_entries_setdefault_append log_size_setdefault_append)
qed

lemma translate_locale_Inr:
  assumes "translate_locale env source_dict lang s = (Inr tr, s')"
  shows "\<exists>es. length es = length source_dict
      \<and> map entry_key es = map fst source_dict
      \<and> map entry_original es = map snd source_dict
      \<and> (\<forall>i < length es. entry_tokens (es ! i) = sum_list (map entry_words (take (Suc i) es)))
      \<and> log_entries (translation_log s') lang = log_entries (translation_log s) lang @ es
      \<and> (\<forall>l. l \<noteq> lang \<longrightarrow> log_entries (translation_log s') l = log_entries (translation_log s) l)
      \<and> log_size (translation_log s') = log_size (translation_log s) + length source_dict
      \<and> set (map fst tr) = set (map fst source_dict)
      \<and> distinct (map fst tr)
      \<and> (distinct (map fst source_dict) \<longrightarrow> map fst tr = map fst source_dict)"
proof -
  from assms have "translate_items env lang source_dict [] 0 s = (Inr tr, s')"
    by (simp add: translate_locale_def)
  from translate_items_Inr[OF this] obtain ts where ts: "length ts = length source_dict"
    "\<forall>l. log_entries (translation_log s') l =
             (if l = lang then log_entries (translation_log s) lang @ new_entries source_dict ts 0
              else log_entries (translation_log s) l)"
    "tr = fold (\<lambda>(k, t) d. dict_set d k t) (zip (map fst source_dict) ts) []"
    "log_size (translation_log s') = log_size (translation_log s) + length source_dict"
    by blast
  let ?es = "new_entries source_dict ts 0"
  have len: "length ?es = length source_dict" using ts(1) by (rule length_new_entries)
  have tok: "\<forall>i < length ?es. entry_tokens (?es ! i) = sum_list (map entry_words (take (Suc i) ?es))"
    using tokens_new_entries[OF ts(1), of _ 0] len by simp
  have keys: "set (map fst tr) = set (map fst source_dict)"
    using set_keys_fold_dict_set[of ts "map fst source_dict" "[]"] ts(1,3) by simp
  have dist: "distinct (map fst tr)"
    unfolding ts(3) by (rule distinct_keys_fold_dict_set) simp
  have ord: "distinct (map fst source_dict) \<longrightarrow> map fst tr = map fst source_dict"
    using keys_fold_dict_set_distinct[of ts "map fst source_dict" "[]"] ts(1,3) by simp
  show ?thesis
    using len tok keys dist ord ts(2,4) keys_new_entries[OF ts(1), of 0]
      originals_new_entries[OF ts(1), of 0]
    by (intro exI[of _ ?es]) simp
qed

subsection \<open>Requests to the host leave the globals alone\<close>

lemma same_globals_refl: "same_globals s s"
  by (simp add: same_globals_def)

lemma same_globals_trans: "same_globals s s1 \<Longrightarrow> same_globals s1 s2 \<Longrightarrow> same_globals s s2"
  by (simp add: same_globals_def)

lemma same_globals_charged: "same_globals s s' \<Longrightarrow> charged env s s'"
  by (simp add: same_globals_def charged_same)

lemma same_globals_console: "same_globals s s' \<Longrightarrow> same_globals s (s'\<lparr>console := c\<rparr>)"
  by (simp add: same_globals_def)

lemma get_repo_globals: "get_repo env s = (r, s') \<Longrightarrow> same_globals s s'"
  by (auto simp: get_repo_def gh_request_def same_globals_def split: option.splits)

lemma get_branch_globals: "get_branch env name s = (r, s') \<Longrightarrow> same_globals s s'"
  by (auto simp: get_branch_def gh_request_def same_globals_def split: option.splits)

lemma create_git_ref_globals: "create_git_ref env ref sha s = (r, s') \<Longrightarrow> same_globals s s'"
  by (auto simp: create_git_ref_def gh_request_def same_globals_def Let_def
      split: option.splits if_splits)

lemma get_contents_globals: "get_contents env path ref s = (r, s') \<Longrightarrow> same_globals s s'"
  by (auto simp: get_contents_def gh_request_def same_globals_def split: option.splits)

lemma create_file_globals:
  "create_file env path msg content branch author s = (r, s') \<Longrightarrow> same_globals s s'"
  by (auto simp: create_file_def gh_request_def same_globals_def split: option.splits if_splits)

lemma update_file_globals:
  "update_file env path msg content sha branch author s = (r, s') \<Longrightarrow> same_globals s s'"
  by (auto simp: update_file_def gh_request_def same_globals_def split: option.splits if_splits)

lemma get_pulls_globals: "get_pulls env head base s = (r, s') \<Longrightarrow> same_globals s s'"
  by (auto simp: get_pulls_def gh_request_def same_globals_def split: option.splits)

lemma create_pull_globals: "create_pull env title body head base s = (r, s') \<Longrightarrow> same_globals s s'"
  by (auto simp: create_pull_def gh_request_def same_globals_def Let_def
      split: option.splits if_splits)

lemma ensure_branch_globals: "same_globals s (ensure_branch env sha s)"
proof -
  obtain r s1 where c: "create_git_ref env (''refs/heads/'' @ BRANCH_NAME) sha s = (r, s1)"
    by force
  from create_git_ref_globals[OF c] c show ?thesis
    by (cases r) (simp_all add: ensure_branch_def same_globals_def)
qed

lemma load_catalog_globals: "load_catalog env s = (r, s') \<Longrightarrow> same_globals s s'"
proof -
  assume l: "load_catalog env s = (r, s')"
  obtain r1 s1 where c: "get_contents env LOCALE_PATH ''main'' s = (r1, s1)" by force
  from l c have "s' = s1" by (cases r1) (auto simp: load_catalog_def)
  with get_contents_globals[OF c] show ?thesis by simp
qed

lemma publish_file_globals: "publish_file env lang blob s = (r, s') \<Longrightarrow> same_globals s s'"
proof -
  assume p: "publish_file env lang blob s = (r, s')"
  let ?path = "''locales/'' @ lang @ ''.json''"
  obtain r1 s1 where c: "create_file env ?path (''Add '' @ lang @ '' translation'') blob
      BRANCH_NAME the_author s = (r1, s1)" by force
  note g1 = create_file_globals[OF c]
  show ?thesis
  proof (cases r1)
    case (Inr u)
    with p c g1 show ?thesis by (simp add: publish_file_def)
  next
    case (Inl e)
    obtain r2 s2 where gc: "get_contents env ?path BRANCH_NAME s1 = (r2, s2)" by force
    note g2 = same_globals_trans[OF g1 get_contents_globals[OF gc]]
    show ?thesis
    proof (cases r2)
      case (Inl e2)
      with p c \<open>r1 = Inl e\<close> gc g2 show ?thesis by (simp add: publish_file_def)
    next
      case (Inr bs)
      obtain body sha where bs: "bs = (body, sha)" by (cases bs)
      from p c \<open>r1 = Inl e\<close> gc Inr bs
      have "update_file env ?path (''Update '' @ lang @ '' translation'') blob sha
              BRANCH_NAME the_author s2 = (r, s')"
        by (simp add: publish_file_def)
      from same_globals_trans[OF g2 update_file_globals[OF this]] show ?thesis .
    qed
  qed
qed

lemma ensure_pull_globals: "ensure_pull env s = (r, s') \<Longrightarrow> same_globals s s'"
proof -
  assume p: "ensure_pull env s = (r, s')"
  obtain r1 s1 where g: "get_pulls env (''ClintUK:'' @ BRANCH_NAME) ''main'' s = (r1, s1)"
    by force
  note g1 = get_pulls_globals[OF g]
  show ?thesis
  proof (cases r1)
    case (Inl e)
    with p g g1 show ?thesis by (simp add: ensure_pull_def)
  next
    case (Inr prs)
    show ?thesis
    proof (cases "length prs = 0")
      case True
      with p g Inr have "create_pull env pr_title_text pr_body_text BRANCH_NAME ''main'' s1 = (r, s')"
        by (simp add: ensure_pull_def)
      from same_globals_trans[OF g1 create_pull_globals[OF this]] show ?thesis .
    next
      case False
      with p g Inr have "s' = s1\<lparr>console := console s1 @ [PRExists]\<rparr>"
        by (auto simp: ensure_pull_def)
      with g1 show ?thesis by (simp add: same_globals_def)
    qed
  qed
qed

lemma send_translation_email_globals:
  "send_translation_email env s = (r, s') \<Longrightarrow> same_globals s s'"
  by (auto simp: send_translation_email_def write_csv_log_def read_csv_file_def
        smtp_session_def smtp_body_def same_globals_def Let_def
      split: option.splits sum.splits prod.splits if_splits)

subsection \<open>The loop over the languages\<close>

lemma translate_locale_globals_frame:
  "translate_locale env cat lang s = (r, s') \<Longrightarrow>
   console s' = console s \<and> csv_file s' = csv_file s
   \<and> branches s' = branches s \<and> files s' = files s \<and> commits s' = commits s
   \<and> pulls s' = pulls s \<and> outbox s' = outbox s"
  unfolding translate_locale_def by (rule translate_items_frame)

lemma translate_locale_charged:
  "translate_locale env cat lang s = (r, s') \<Longrightarrow> charged env s s'"
  unfolding translate_locale_def by (rule translate_items_charged)

lemma translate_langs_charged:
  "translate_langs env cat langs s = (r, s') \<Longrightarrow> charged env s s'"
proof (induction langs arbitrary: s)
  case Nil
  then show ?case by (simp add: charged_refl)
next
  case (Cons lang langs)
  let ?s0 = "s\<lparr>console := console s @ [Translating lang]\<rparr>"
  obtain r1 s1 where tl: "translate_locale env cat lang ?s0 = (r1, s1)" by force
  have c0: "charged env s ?s0" by (simp add: charged_same)
  note c1 = charged_trans[OF c0 translate_locale_charged[OF tl]]
  show ?case
  proof (cases r1)
    case (Inl e)
    with Cons.prems tl c1 show ?thesis by simp
  next
    case (Inr tr)
    obtain r2 s2 where pf: "publish_file env lang (JsonObject tr) s1 = (r2, s2)" by force
    note c2 = charged_trans[OF c1 same_globals_charged[OF publish_file_globals[OF pf]]]
    show ?thesis
    proof (cases r2)
      case (Inl e)
      with Cons.prems tl \<open>r1 = Inr tr\<close> pf c2 show ?thesis by simp
    next
      case (Inr u)
      with Cons.prems tl \<open>r1 = Inr tr\<close> pf
      have "translate_langs env cat langs s2 = (r, s')" by simp
      from charged_trans[OF c2 Cons.IH[OF this]] show ?thesis .
    qed
  qed
qed

lemma translate_langs_Inr:
  "translate_langs env cat langs s = (Inr u, s') \<Longrightarrow>
   (\<forall>l. map entry_key (log_entries (translation_log s') l) =
        map entry_key (log_entries (translation_log s) l)
          @ concat (replicate (count_list langs l) (map fst cat)))
   \<and> log_size (translation_log s') = log_size (translation_log s) + length cat * length langs"
proof (induction langs arbitrary: s)
  case Nil
  then show ?case by simp
next
  case (Cons lang langs)
  let ?s0 = "s\<lparr>console := console s @ [Translating lang]\<rparr>"
  from Cons.prems obtain tr s1 where tl: "translate_locale env cat lang ?s0 = (Inr tr, s1)"
    by (auto split: prod.splits sum.splits)
  from Cons.prems tl obtain s2 where pf: "publish_file env lang (JsonObject tr) s1 = (Inr (), s2)"
    and rec: "translate_langs env cat langs s2 = (Inr u, s')"
    by (auto split: prod.splits sum.splits)
  from translate_locale_Inr[OF tl] obtain es where es:
    "map entry_key es = map fst cat"
    "log_entries (translation_log s1) lang = log_entries (translation_log s) lang @ es"
    "\<forall>l. l \<noteq> lang \<longrightarrow> log_entries (translation_log s1) l = log_entries (translation_log s) l"
    "log_size (translation_log s1) = log_size (translation_log s) + length cat"
    by auto
  have l2: "translation_log s2 = translation_log s1"
    using publish_file_globals[OF pf] by (simp add: same_globals_def)
  from Cons.IH[OF rec] have ih:
    "\<forall>l. map entry_key (log_entries (translation_log s') l) =
        map entry_key (log_entries (translation_log s2) l)
          @ concat (replicate (count_list langs l) (map fst cat))"
    "log_size (translation_log s') = log_size (translation_log s2) + length cat * length langs"
    by auto
  have "map entry_key (log_entries (translation_log s') l) =
        map entry_key (log_entries (translation_log s) l)
          @ concat (replicate (count_list (lang # langs) l) (map fst cat))" for l
  proof (cases "l = lang")
    case True
    with ih(1) l2 es(1,2) show ?thesis by simp
  next
    case False
    with ih(1) l2 es(3) show ?thesis by simp
  qed
  moreover have "log_size (translation_log s') =
      log_size (translation_log s) + length cat * length (lang # langs)"
    using ih(2) l2 es(4) by simp
  ultimately show ?case by blast
qed

subsection \<open>The whole run\<close>

lemma push_translations_Inr:
  "push_translations env s = (Inr u, s') \<Longrightarrow>
   \<exists>s1 sha s2 cat s4 s5 s6.
      get_repo env s = (Inr (), s1) \<and> get_branch env ''main'' s1 = (Inr sha, s2)
    \<and> load_catalog env (ensure_branch env sha s2) = (Inr cat, s4)
    \<and> translate_langs env cat (TARGET_LANGS env) s4 = (Inr (), s5)
    \<and> ensure_pull env s5 = (Inr (), s6)
    \<and> send_translation_email env s6 = (Inr u, s')"
  by (auto simp: push_translations_def split: prod.splits sum.splits)

lemma push_translations_charged: "charged env s (snd (push_translations env s))"
proof -
  obtain r1 s1 where a1: "get_repo env s = (r1, s1)" by force
  note c1 = same_globals_charged[OF get_repo_globals[OF a1], of env]
  show ?thesis
  proof (cases r1)
    case (Inl e)
    with a1 c1 show ?thesis by (simp add: push_translations_def)
  next
    case r1: (Inr u1)
    obtain r2 s2 where a2: "get_branch env ''main'' s1 = (r2, s2)" by force
    note c2 = charged_trans[OF c1 same_globals_charged[OF get_branch_globals[OF a2]]]
    show ?thesis
    proof (cases r2)
      case (Inl e)
      with a1 r1 a2 c2 show ?thesis by (simp add: push_translations_def)
    next
      case r2: (Inr sha)
      obtain r4 s4 where a4: "load_catalog env (ensure_branch env sha s2) = (r4, s4)" by force
      note c4 = charged_trans[OF charged_trans[OF c2 same_globals_charged[OF ensure_branch_globals]]
          same_globals_charged[OF load_catalog_globals[OF a4]]]
      show ?thesis
      proof (cases r4)
        case (Inl e)
        with a1 r1 a2 r2 a4 c4 show ?thesis by (simp add: push_translations_def)
      next
        case r4: (Inr cat)
        obtain r5 s5 where a5: "translate_langs env cat (TARGET_LANGS env) s4 = (r5, s5)" by force
        note c5 = charged_trans[OF c4 translate_langs_charged[OF a5]]
        show ?thesis
        proof (cases r5)
          case (Inl e)
          with a1 r1 a2 r2 a4 r4 a5 c5 show ?thesis by (simp add: push_translations_def)
        next
          case r5: (Inr u5)
          obtain r6 s6 where a6: "ensure_pull env s5 = (r6, s6)" by force
          note c6 = charged_trans[OF c5 same_globals_charged[OF ensure_pull_globals[OF a6]]]
          show ?thesis
          proof (cases r6)
            case (Inl e)
            with a1 r1 a2 r2 a4 r4 a5 r5 a6 c6 show ?thesis by (simp add: push_translations_def)
          next
            case r6: (Inr u6)
            obtain r7 s7 where a7: "send_translation_email env s6 = (r7, s7)" by force
            note c7 = charged_trans[OF c6
                same_globals_charged[OF send_translation_email_globals[OF a7]]]
            with a1 r1 a2 r2 a4 r4 a5 r5 a6 r6 a7 show ?thesis
              by (simp add: push_translations_def)
          qed
        qed
      qed
    qed
  qed
qed

lemma BRANCH_NAME_not_main: "drop (length ''refs/heads/'') (''refs/heads/'' @ BRANCH_NAME) \<noteq> ''main''"
  by (simp add: BRANCH_NAME_def)

lemma map_of_renamed_branch:
  "name \<noteq> b \<Longrightarrow> map_of (map (\<lambda>((b0, p0), body). ((name, p0), body)) xs) (b, p) = None"
  by (induction xs) auto

lemma create_git_ref_other_branch:
  "create_git_ref env ref sha s = (r, s') \<Longrightarrow> drop (length ''refs/heads/'') ref \<noteq> b \<Longrightarrow>
   map_of (files s') (b, p) = map_of (files s) (b, p)"
  by (auto simp: create_git_ref_def gh_request_def Let_def map_add_def map_of_renamed_branch
      split: option.splits if_splits)

lemma ensure_branch_main_file:
  "map_of (files (ensure_branch env sha s)) (''main'', p) = map_of (files s) (''main'', p)"
proof -
  obtain r s1 where c: "create_git_ref env (''refs/heads/'' @ BRANCH_NAME) sha s = (r, s1)"
    by force
  from create_git_ref_other_branch[OF c BRANCH_NAME_not_main] c show ?thesis
    by (cases r) (simp_all add: ensure_branch_def)
qed

lemma load_catalog_Inr:
  "load_catalog env s = (Inr cat, s') \<Longrightarrow>
   \<exists>body. map_of (files s) (''main'', LOCALE_PATH) = Some body \<and> json_loads body = Inr cat"
  by (auto simp: load_catalog_def get_contents_def gh_request_def
      split: option.splits prod.splits sum.splits)

lemma get_repo_files: "get_repo env s = (r, s') \<Longrightarrow> files s' = files s \<and> pulls s' = pulls s"
  by (auto simp: get_repo_def gh_request_def split: option.splits)

lemma get_branch_files: "get_branch env name s = (r, s') \<Longrightarrow> files s' = files s \<and> pulls s' = pulls s"
  by (auto simp: get_branch_def gh_request_def split: option.splits)

lemma distinct_keys_json_loads: "json_loads body = Inr cat \<Longrightarrow> distinct (map fst cat)"
proof (cases body)
  case (JsonObject members)
  have "distinct (map fst (foldl (\<lambda>d (k, v). dict_set d k v) d0 members))"
    if "distinct (map fst d0)" for d0 :: "(string \<times> string) list"
    using that by (induction members arbitrary: d0) (auto simp: distinct_keys_dict_set)
  from this[of "[]"] JsonObject show "json_loads body = Inr cat \<Longrightarrow> ?thesis" by auto
qed simp

text \<open>What a successful run leaves in the log.\<close>

lemma push_translations_log:
  assumes run: "push_translations env s = (Inr u, s')"
    and cat: "map_of (files s) (''main'', LOCALE_PATH) = Some body" "json_loads body = Inr cat"
  shows "map entry_key (log_entries (translation_log s') l) =
           map entry_key (log_entries (translation_log s) l)
             @ concat (replicate (count_list (TARGET_LANGS env) l) (map fst cat))"
    and "log_size (translation_log s') =
           log_size (translation_log s) + length cat * length (TARGET_LANGS env)"
proof -
  from push_translations_Inr[OF run] obtain s1 sha s2 cat' s4 s5 s6 where st:
    "get_repo env s = (Inr (), s1)" "get_branch env ''main'' s1 = (Inr sha, s2)"
    "load_catalog env (ensure_branch env sha s2) = (Inr cat', s4)"
    "translate_langs env cat' (TARGET_LANGS env) s4 = (Inr (), s5)"
    "ensure_pull env s5 = (Inr (), s6)"
    "send_translation_email env s6 = (Inr u, s')"
    by blast
  have f2: "files s2 = files s"
    using get_repo_files[OF st(1)] get_branch_files[OF st(2)] by simp
  from load_catalog_Inr[OF st(3)] ensure_branch_main_file[of env sha s2] f2 cat
  have cat': "cat' = cat" by auto
  have g4: "same_globals s s4"
    using get_repo_globals[OF st(1)] get_branch_globals[OF st(2)]
      ensure_branch_globals[of s2 env sha] load_catalog_globals[OF st(3)]
    by (simp add: same_globals_def)
  have g': "same_globals s5 s'"
    using ensure_pull_globals[OF st(5)] send_translation_email_globals[OF st(6)]
    by (simp add: same_globals_def)
  from translate_langs_Inr[OF st(4)] g4 g' cat'
  show "map entry_key (log_entries (translation_log s') l) =
           map entry_key (log_entries (translation_log s) l)
             @ concat (replicate (count_list (TARGET_LANGS env) l) (map fst cat))"
    and "log_size (translation_log s') =
           log_size (translation_log s) + length cat * length (TARGET_LANGS env)"
    by (simp_all add: same_globals_def)
qed

subsection \<open>The concrete runs, evaluated\<close>

lemma demo_translate_locale:
  "translate_locale demo_env demo_catalog ''es'' demo_state =
     (Inr [(''greeting'', ''Hola a todos''), (''bye'', ''Hola a todos'')], demo_translated)"
proof -
  have "fst (translate_locale demo_env demo_catalog ''es'' demo_state) =
          Inr [(''greeting'', ''Hola a todos''), (''bye'', ''Hola a todos'')]"
    by code_simp
  then show ?thesis
    unfolding demo_translated_def by (simp add: prod_eq_iff)
qed

lemma demo_translate_locale_twice:
  "translate_locale demo_env demo_catalog ''es'' demo_translated =
     (Inr [(''greeting'', ''Hola a todos''), (''bye'', ''Hola a todos'')], demo_translated_twice)"
proof -
  have "fst (translate_locale demo_env demo_catalog ''es'' demo_translated) =
          Inr [(''greeting'', ''Hola a todos''), (''bye'', ''Hola a todos'')]"
    by code_simp
  then show ?thesis
    unfolding demo_translated_twice_def by (simp add: prod_eq_iff)
qed

lemma demo_run: "push_translations demo_env demo_state = (Inr (), demo_after)"
proof -
  have "fst (push_translations demo_env demo_state) = Inr ()"
    by code_simp
  then show ?thesis
    unfolding demo_after_def by (simp add: prod_eq_iff)
qed

lemma dup_run: "push_translations dup_env demo_state = (Inr (), dup_after)"
proof -
  have "fst (push_translations dup_env demo_state) = Inr ()"
    by code_simp
  then show ?thesis
    unfolding dup_after_def by (simp add: prod_eq_iff)
qed

lemma demo_state_catalog:
  "map_of (files demo_state) (''main'', LOCALE_PATH) = Some (JsonObject [(''greeting'', ''Hello'')])"
  "json_loads (JsonObject [(''greeting'', ''Hello'')]) = Inr [(''greeting'', ''Hello'')]"
  "translation_log demo_state = []"
  by (simp_all add: demo_state_def LOCALE_PATH_def)

lemma demo_target_langs: "TARGET_LANGS demo_env = [''es'', ''fr'']"
  by code_simp

lemma dup_target_langs: "TARGET_LANGS dup_env = [''es'', ''es'']"
  by code_simp

lemma count_list_concat_replicate:
  "count_list (concat (replicate n ks)) k = n * count_list ks k"
  by (induction n) auto

lemma count_list_distinct: "distinct ks \<Longrightarrow> k \<in> set ks \<Longrightarrow> count_list ks k = 1"
  by (induction ks) auto

subsection \<open>Report Writer and Report Mailer\<close>

lemma write_entries_rows:
  "write_entries lang entries rows = rows @ map (entry_row lang) entries"
  by (induction lang entries rows rule: write_entries.induct)
     (auto simp: entry_row_def entry_key_def entry_original_def entry_translated_def)

lemma write_langs_rows: "write_langs log rows = rows @ log_rows log"
  by (induction log rows rule: write_langs.induct) (auto simp: log_rows_def write_entries_rows)

lemma length_log_rows: "length (log_rows log) = log_size log"
  by (induction log) (auto simp: log_rows_def log_size_def)

lemma write_csv_log_ok:
  "disk_fault env OpenWrite = None \<Longrightarrow>
   write_csv_log env s = (Inr (), s\<lparr>csv_file := Some (csv_header # log_rows (translation_log s))\<rparr>)"
  by (simp add: write_csv_log_def write_langs_rows)

lemma smtp_session_frame:
  "smtp_session env msg s = (r, s') \<Longrightarrow>
   csv_file s' = csv_file s \<and> translation_log s' = translation_log s \<and> pulls s' = pulls s
   \<and> files s' = files s \<and> commits s' = commits s"
  by (auto simp: smtp_session_def smtp_body_def split: option.splits if_splits prod.splits)

lemma smtp_session_failed:
  "\<exists>step \<in> {Connect, Starttls, Login, Sendmail}. smtp_fault env step \<noteq> None \<Longrightarrow>
   \<exists>e. smtp_session env msg s = (Inl e, s)"
  by (auto simp: smtp_session_def smtp_body_def split: option.splits)

lemma send_translation_email_Inr:
  "send_translation_email env s = (Inr u, s') \<Longrightarrow>
   csv_file s' = Some (csv_header # log_rows (translation_log s))
   \<and> translation_log s' = translation_log s"
proof -
  assume a: "send_translation_email env s = (Inr u, s')"
  then have w: "disk_fault env OpenWrite = None"
    by (auto simp: send_translation_email_def write_csv_log_def split: option.splits)
  let ?s1 = "s\<lparr>csv_file := Some (csv_header # log_rows (translation_log s))\<rparr>"
  from a write_csv_log_ok[OF w, of s] obtain msg r3 s3 where
    ss: "smtp_session env msg ?s1 = (r3, s3)"
    and s': "s' = s3 \<or> (\<exists>e. s' = s3\<lparr>console := console s3 @ [EmailFailed e]\<rparr>)"
    by (auto simp: send_translation_email_def read_csv_file_def Let_def
        split: option.splits sum.splits prod.splits)
  from smtp_session_frame[OF ss] s' show ?thesis by auto
qed

lemma send_translation_email_disk_ok:
  assumes "disk_fault env OpenWrite = None" "disk_fault env OpenRead = None"
  shows "\<exists>msg r3 s3. smtp_session env msg
            (s\<lparr>csv_file := Some (csv_header # log_rows (translation_log s))\<rparr>) = (r3, s3)
      \<and> send_translation_email env s =
          (Inr (), case r3 of Inl e \<Rightarrow> s3\<lparr>console := console s3 @ [EmailFailed e]\<rparr> | Inr _ \<Rightarrow> s3)"
proof -
  let ?s1 = "s\<lparr>csv_file := Some (csv_header # log_rows (translation_log s))\<rparr>"
  let ?msg = "\<lparr>mail_from = EMAIL_FROM env, mail_to = split_on (CHR '','') (EMAIL_TO env),
      mail_html = build_report env s,
      mail_attachment = csv_header # log_rows (translation_log s)\<rparr>"
  obtain r3 s3 where ss: "smtp_session env ?msg ?s1 = (r3, s3)" by force
  have "send_translation_email env s =
          (Inr (), case r3 of Inl e \<Rightarrow> s3\<lparr>console := console s3 @ [EmailFailed e]\<rparr> | Inr _ \<Rightarrow> s3)"
    using assms ss
    by (cases r3) (simp_all add: send_translation_email_def write_csv_log_ok read_csv_file_def Let_def)
  with ss show ?thesis by blast
qed

lemma translate_text_reported:
  assumes "chat_create env (clock s) (model env) (build_prompt text lang) = Inr r"
    and "usage_total_tokens r = Some t"
  shows "total_tokens_used (snd (translate_text env text lang s)) = total_tokens_used s + t
       \<and> api_costs (snd (translate_text env text lang s)) = api_costs s @ [t]"
  using assms
  by (auto simp: translate_text_def completions_create_def Let_def
      split: list.splits option.splits)

lemma translate_text_unreported:
  assumes "chat_create env (clock s) (model env) (build_prompt text lang) = Inl e
     \<or> (\<exists>r. chat_create env (clock s) (model env) (build_prompt text lang) = Inr r
             \<and> usage_total_tokens r = None)"
  shows "total_tokens_used (snd (translate_text env text lang s)) = total_tokens_used s
       \<and> api_costs (snd (translate_text env text lang s)) = api_costs s"
  using assms
  by (auto simp: translate_text_def completions_create_def Let_def)

lemma costs_nonneg_demo: "costs_nonneg demo_env"
  by (auto simp: costs_nonneg_def demo_env_def demo_llm_def)

subsection \<open>Publishing one file\<close>

lemma create_file_Inl:
  "create_file env path msg content branch author s = (Inl e, s') \<Longrightarrow>
   s' = s\<lparr>clock := Suc (clock s)\<rparr>"
  by (auto simp: create_file_def gh_request_def split: option.splits if_splits)

lemma create_file_Inr:
  "create_file env path msg content branch author s = (Inr u, s') \<Longrightarrow>
   s' = s\<lparr>clock := Suc (clock s), files := files s @ [((branch, path), content)],
          commits := commits s @ [\<lparr>c_branch = branch, c_path = path, c_message = msg,
                                    c_author = author\<rparr>]\<rparr>
   \<and> map_of (files s) (branch, path) = None"
  by (auto simp: create_file_def gh_request_def split: option.splits if_splits)

lemma create_file_taken:
  "gh_fault env (clock s) CreateFile = None \<Longrightarrow> map_of (files s) (branch, path) = Some b0 \<Longrightarrow>
   \<exists>e. create_file env path msg content branch author s = (Inl e, s\<lparr>clock := Suc (clock s)\<rparr>)"
  by (auto simp: create_file_def gh_request_def)

lemma publish_file_created:
  "create_file env (locale_path lang) (add_message lang) blob BRANCH_NAME the_author s = (Inr u, s1)
   \<Longrightarrow> publish_file env lang blob s = (Inr (), s1)"
  unfolding publish_file_def locale_path_def add_message_def Let_def
  by simp

lemma publish_file_fallback:
  "create_file env (locale_path lang) (add_message lang) blob BRANCH_NAME the_author s = (Inl e, s1)
   \<Longrightarrow> publish_file env lang blob s =
       (case get_contents env (locale_path lang) BRANCH_NAME s1 of
          (Inl e', s2) \<Rightarrow> (Inl e', s2)
        | (Inr (body, sha), s2) \<Rightarrow>
            update_file env (locale_path lang) (update_message lang) blob sha BRANCH_NAME
              the_author s2)"
  unfolding publish_file_def locale_path_def add_message_def update_message_def Let_def
  by simp

lemma fallback_updates:
  assumes "gh_fault env (clock s1) GetContents = None"
    and "gh_fault env (Suc (clock s1)) UpdateFile = None"
    and "map_of (files s1) (BRANCH_NAME, locale_path lang) = Some b0"
  shows "(case get_contents env (locale_path lang) BRANCH_NAME s1 of
          (Inl e', s2) \<Rightarrow> (Inl e', s2)
        | (Inr (body, sha), s2) \<Rightarrow>
            update_file env (locale_path lang) (update_message lang) blob sha BRANCH_NAME
              the_author s2) =
         (Inr (), s1\<lparr>clock := Suc (Suc (clock s1)),
                    files := dict_set (files s1) (BRANCH_NAME, locale_path lang) blob,
                    commits := commits s1 @
                      [\<lparr>c_branch = BRANCH_NAME, c_path = locale_path lang,
                        c_message = update_message lang, c_author = the_author\<rparr>]\<rparr>)"
  using assms by (simp add: get_contents_def update_file_def gh_request_def)

lemma fallback_missing:
  assumes "gh_fault env (clock s1) GetContents = None"
    and "map_of (files s1) (BRANCH_NAME, locale_path lang) = None"
  shows "(case get_contents env (locale_path lang) BRANCH_NAME s1 of
          (Inl e', s2) \<Rightarrow> (Inl e', s2)
        | (Inr (body, sha), s2) \<Rightarrow>
            update_file env (locale_path lang) (update_message lang) blob sha BRANCH_NAME
              the_author s2) =
         (Inl (GithubException 404), s1\<lparr>clock := Suc (clock s1)\<rparr>)"
  using assms by (simp add: get_contents_def gh_request_def)

lemma translate_langs_stops:
  "translate_locale env cat lang (s\<lparr>console := console s @ [Translating lang]\<rparr>) = (Inr tr, s1)
   \<Longrightarrow> publish_file env lang (JsonObject tr) s1 = (Inl e, s2)
   \<Longrightarrow> translate_langs env cat (lang # rest) s = (Inl e, s2)"
  by simp

lemma ja_create:
  "create_file demo_env (locale_path ''ja'') (add_message ''ja'') demo_blob BRANCH_NAME
     the_author rerun_state = (Inr (), ja_created)"
proof -
  have "fst (create_file demo_env (locale_path ''ja'') (add_message ''ja'') demo_blob BRANCH_NAME
     the_author rerun_state) = Inr ()"
    by code_simp
  then show ?thesis unfolding ja_created_def by (simp add: prod_eq_iff)
qed

lemma es_create_refused:
  "create_file nocreate_env (locale_path lang) (add_message lang) demo_blob BRANCH_NAME
     the_author rerun_state = (Inl (GithubException 403), rerun_state\<lparr>clock := Suc (clock rerun_state)\<rparr>)"
  by (simp add: create_file_def gh_request_def nocreate_env_def)

lemma nocreate_faults:
  "gh_fault nocreate_env n GetContents = None" "gh_fault nocreate_env n UpdateFile = None"
  by (simp_all add: nocreate_env_def)

lemma rerun_files:
  "map_of (files rerun_state) (BRANCH_NAME, locale_path ''es'') = Some (JsonObject [(''greeting'', ''Hola'')])"
  "map_of (files rerun_state) (BRANCH_NAME, locale_path ''fr'') = Some (JsonObject [(''greeting'', ''Salut'')])"
  "map_of (files rerun_state) (BRANCH_NAME, locale_path ''ja'') = None"
  by (simp_all add: rerun_state_def BRANCH_NAME_def locale_path_def)

lemma ja_translate:
  "translate_locale nocreate_env [(''greeting'', ''Hello'')] ''ja''
     (rerun_state\<lparr>console := console rerun_state @ [Translating ''ja'']\<rparr>)
   = (Inr [(''greeting'', ''Hola a todos'')], ja_translated)"
proof -
  have "fst (translate_locale nocreate_env [(''greeting'', ''Hello'')] ''ja''
     (rerun_state\<lparr>console := console rerun_state @ [Translating ''ja'']\<rparr>))
     = Inr [(''greeting'', ''Hola a todos'')]"
    by code_simp
  then show ?thesis unfolding ja_translated_def by (simp add: prod_eq_iff)
qed

lemma ja_publish:
  "publish_file nocreate_env ''ja'' (JsonObject [(''greeting'', ''Hola a todos'')]) ja_translated
     = (Inl (GithubException 404), ja_failed)"
proof -
  have "fst (publish_file nocreate_env ''ja'' demo_blob ja_translated) = Inl (GithubException 404)"
    by code_simp
  then show ?thesis unfolding ja_failed_def demo_blob_def by (simp add: prod_eq_iff)
qed

subsection \<open>Pull requests\<close>

lemma create_git_ref_pulls: "create_git_ref env ref sha s = (r, s') \<Longrightarrow> pulls s' = pulls s"
  by (auto simp: create_git_ref_def gh_request_def Let_def split: option.splits if_splits)

lemma ensure_branch_pulls: "pulls (ensure_branch env sha s) = pulls s"
proof -
  obtain r s1 where c: "create_git_ref env (''refs/heads/'' @ BRANCH_NAME) sha s = (r, s1)"
    by force
  from create_git_ref_pulls[OF c] c show ?thesis
    by (cases r) (simp_all add: ensure_branch_def)
qed

lemma load_catalog_pulls: "load_catalog env s = (r, s') \<Longrightarrow> pulls s' = pulls s"
  by (auto simp: load_catalog_def get_contents_def gh_request_def
      split: option.splits prod.splits sum.splits)

lemma publish_file_pulls: "publish_file env lang blob s = (r, s') \<Longrightarrow> pulls s' = pulls s"
  by (auto simp: publish_file_def create_file_def get_contents_def update_file_def
        gh_request_def Let_def
      split: prod.splits sum.splits option.splits if_splits)

lemma translate_langs_pulls: "translate_langs env cat langs s = (r, s') \<Longrightarrow> pulls s' = pulls s"
proof (induction langs arbitrary: s)
  case Nil
  then show ?case by simp
next
  case (Cons lang langs)
  let ?s0 = "s\<lparr>console := console s @ [Translating lang]\<rparr>"
  obtain r1 s1 where tl: "translate_locale env cat lang ?s0 = (r1, s1)" by force
  from translate_locale_globals_frame[OF tl] have p1: "pulls s1 = pulls s" by simp
  show ?case
  proof (cases r1)
    case (Inl e)
    with Cons.prems tl p1 show ?thesis by simp
  next
    case (Inr tr)
    obtain r2 s2 where pf: "publish_file env lang (JsonObject tr) s1 = (r2, s2)" by force
    from publish_file_pulls[OF pf] p1 have p2: "pulls s2 = pulls s" by simp
    show ?thesis
    proof (cases r2)
      case (Inl e)
      with Cons.prems tl \<open>r1 = Inr tr\<close> pf p2 show ?thesis by simp
    next
      case (Inr u)
      with Cons.prems tl \<open>r1 = Inr tr\<close> pf
      have "translate_langs env cat langs s2 = (r, s')" by simp
      from Cons.IH[OF this] p2 show ?thesis by simp
    qed
  qed
qed

lemma send_translation_email_pulls:
  "send_translation_email env s = (r, s') \<Longrightarrow> pulls s' = pulls s"
  by (auto simp: send_translation_email_def write_csv_log_def read_csv_file_def
        smtp_session_def smtp_body_def Let_def
      split: option.splits sum.splits prod.splits if_splits)

lemma ensure_pull_pulls:
  "ensure_pull env s = (r, s') \<Longrightarrow>
   pulls s' = pulls s
   \<or> (\<not> list_ex (pr_matches (''ClintUK:'' @ BRANCH_NAME) ''main'') (pulls s)
      \<and> pulls s' = pulls s @ [new_pull env])"
  by (auto simp: ensure_pull_def get_pulls_def create_pull_def gh_request_def Let_def
        new_pull_def list_ex_iff filter_empty_conv
      split: option.splits if_splits)

lemma push_translations_pulls:
  "pulls (snd (push_translations env s)) = pulls s
   \<or> (\<not> list_ex (pr_matches (''ClintUK:'' @ BRANCH_NAME) ''main'') (pulls s)
      \<and> pulls (snd (push_translations env s)) = pulls s @ [new_pull env])"
proof -
  obtain r1 s1 where a1: "get_repo env s = (r1, s1)" by force
  from get_repo_files[OF a1] have p1: "pulls s1 = pulls s" by simp
  show ?thesis
  proof (cases r1)
    case (Inl e)
    with a1 p1 show ?thesis by (simp add: push_translations_def)
  next
    case r1: (Inr u1)
    obtain r2 s2 where a2: "get_branch env ''main'' s1 = (r2, s2)" by force
    from get_branch_files[OF a2] p1 have p2: "pulls s2 = pulls s" by simp
    show ?thesis
    proof (cases r2)
      case (Inl e)
      with a1 r1 a2 p2 show ?thesis by (simp add: push_translations_def)
    next
      case r2: (Inr sha)
      obtain r4 s4 where a4: "load_catalog env (ensure_branch env sha s2) = (r4, s4)" by force
      from load_catalog_pulls[OF a4] ensure_branch_pulls[of env sha s2] p2
      have p4: "pulls s4 = pulls s" by simp
      show ?thesis
      proof (cases r4)
        case (Inl e)
        with a1 r1 a2 r2 a4 p4 show ?thesis by (simp add: push_translations_def)
      next
        case r4: (Inr cat)
        obtain r5 s5 where a5: "translate_langs env cat (TARGET_LANGS env) s4 = (r5, s5)" by force
        from translate_langs_pulls[OF a5] p4 have p5: "pulls s5 = pulls s" by simp
        show ?thesis
        proof (cases r5)
          case (Inl e)
          with a1 r1 a2 r2 a4 r4 a5 p5 show ?thesis by (simp add: push_translations_def)
        next
          case r5: (Inr u5)
          obtain r6 s6 where a6: "ensure_pull env s5 = (r6, s6)" by force
          note p6 = ensure_pull_pulls[OF a6, unfolded p5]
          show ?thesis
          proof (cases r6)
            case (Inl e)
            with a1 r1 a2 r2 a4 r4 a5 r5 a6 p6 show ?thesis by (simp add: push_translations_def)
          next
            case r6: (Inr u6)
            obtain r7 s7 where a7: "send_translation_email env s6 = (r7, s7)" by force
            from send_translation_email_pulls[OF a7] p6 a1 r1 a2 r2 a4 r4 a5 r5 a6 r6 a7
            show ?thesis by (simp add: push_translations_def)
          qed
        qed
      qed
    qed
  qed
qed

subsection \<open>A run over an existing branch, existing files and an open pull request\<close>

lemma translate_text_answers:
  "llm_answers env \<Longrightarrow> \<exists>t s'. translate_text env txt lang s = (Inr t, s')"
proof -
  assume "llm_answers env"
  then obtain t content rest where
    "chat_create env (clock s) (model env) (build_prompt txt lang)
       = Inr \<lparr>usage_total_tokens = Some t, choices = Some content # rest\<rparr>"
    unfolding llm_answers_def by blast
  then show ?thesis
    by (simp add: translate_text_def completions_create_def Let_def)
qed

lemma translate_items_answers:
  "llm_answers env \<Longrightarrow> \<exists>tr' s'. translate_items env lang items tr acc s = (Inr tr', s')"
proof (induction items arbitrary: tr acc s)
  case Nil
  then show ?case by simp
next
  case (Cons kv items)
  obtain key val where kv: "kv = (key, val)" by (cases kv)
  from translate_text_answers[OF Cons.prems, of val lang s] obtain t s1 where
    tt: "translate_text env val lang s = (Inr t, s1)" by blast
  from Cons.IH[OF Cons.prems] kv tt show ?case by (simp add: Let_def)
qed

lemma locale_path_inj: "locale_path a = locale_path b \<longleftrightarrow> a = b"
  by (simp add: locale_path_def)

lemma publish_file_existing:
  assumes "host_reliable env"
    and "map_of (files s) (BRANCH_NAME, locale_path lang) = Some b0"
  shows "publish_file env lang blob s =
     (Inr (), s\<lparr>clock := Suc (Suc (Suc (clock s))),
               files := dict_set (files s) (BRANCH_NAME, locale_path lang) blob,
               commits := commits s @
                 [\<lparr>c_branch = BRANCH_NAME, c_path = locale_path lang,
                   c_message = update_message lang, c_author = the_author\<rparr>]\<rparr>)"
proof -
  from assms(1) have nf: "\<And>n op. gh_fault env n op = None"
    by (simp add: host_reliable_def)
  let ?s1 = "s\<lparr>clock := Suc (clock s)\<rparr>"
  from create_file_taken[OF nf assms(2), of "add_message lang" blob the_author] obtain e where
    c: "create_file env (locale_path lang) (add_message lang) blob BRANCH_NAME the_author s
          = (Inl e, ?s1)" by blast
  have f1: "map_of (files ?s1) (BRANCH_NAME, locale_path lang) = Some b0"
    using assms(2) by simp
  from publish_file_fallback[OF c] fallback_updates[OF nf nf f1, of blob]
  show ?thesis by simp
qed

lemma translate_langs_existing:
  assumes "host_reliable env" and "llm_answers env" and "distinct (map fst cat)"
  shows "\<forall>lang \<in> set langs. map_of (files s) (BRANCH_NAME, locale_path lang) \<noteq> None \<Longrightarrow>
    \<exists>s'. translate_langs env cat langs s = (Inr (), s')
       \<and> map fst (files s') = map fst (files s)
       \<and> map c_message (commits s') = map c_message (commits s) @ map update_message langs
       \<and> (\<forall>lang \<in> set langs. \<exists>tr. map_of (files s') (BRANCH_NAME, locale_path lang)
                                      = Some (JsonObject tr) \<and> map fst tr = map fst cat)
       \<and> (\<forall>k. k \<notin> (\<lambda>lang. (BRANCH_NAME, locale_path lang)) ` set langs
              \<longrightarrow> map_of (files s') k = map_of (files s) k)"
proof (induction langs arbitrary: s)
  case Nil
  then show ?case by simp
next
  case (Cons lang langs)
  let ?s0 = "s\<lparr>console := console s @ [Translating lang]\<rparr>"
  let ?key = "(BRANCH_NAME, locale_path lang)"
  from translate_items_answers[OF assms(2), of lang cat "[]" 0 ?s0] obtain tr s1 where
    tl: "translate_locale env cat lang ?s0 = (Inr tr, s1)"
    by (auto simp: translate_locale_def)
  from translate_locale_globals_frame[OF tl]
  have fr: "files s1 = files s" "commits s1 = commits s" by simp_all
  from translate_locale_Inr[OF tl] assms(3) have keys: "map fst tr = map fst cat" by blast
  from Cons.prems obtain b0 where b0: "map_of (files s) ?key = Some b0" by auto
  let ?s2 = "s1\<lparr>clock := Suc (Suc (Suc (clock s1))),
               files := dict_set (files s1) ?key (JsonObject tr),
               commits := commits s1 @
                 [\<lparr>c_branch = BRANCH_NAME, c_path = locale_path lang,
                   c_message = update_message lang, c_author = the_author\<rparr>]\<rparr>"
  have pf: "publish_file env lang (JsonObject tr) s1 = (Inr (), ?s2)"
    using publish_file_existing[OF assms(1), of s1 lang b0 "JsonObject tr"] b0 fr by simp
  have m2: "map_of (files ?s2) = (map_of (files s))(?key \<mapsto> JsonObject tr)"
    using fr by (simp add: map_of_dict_set)
  have kin: "?key \<in> set (map fst (files s))"
    using b0 map_of_eq_None_iff[of "files s" ?key] by auto
  have k2: "map fst (files ?s2) = map fst (files s)"
    using fr kin by (simp add: keys_dict_set_present)
  have pre: "\<forall>l \<in> set langs. map_of (files ?s2) (BRANCH_NAME, locale_path l) \<noteq> None"
    using Cons.prems m2 by simp
  from Cons.IH[OF pre] obtain s' where ih:
    "translate_langs env cat langs ?s2 = (Inr (), s')"
    "map fst (files s') = map fst (files ?s2)"
    "map c_message (commits s') = map c_message (commits ?s2) @ map update_message langs"
    "\<forall>l \<in> set langs. \<exists>tr. map_of (files s') (BRANCH_NAME, locale_path l)
                                      = Some (JsonObject tr) \<and> map fst tr = map fst cat"
    "\<forall>k. k \<notin> (\<lambda>l. (BRANCH_NAME, locale_path l)) ` set langs
              \<longrightarrow> map_of (files s') k = map_of (files ?s2) k"
    by blast
  have run: "translate_langs env cat (lang # langs) s = (Inr (), s')"
    using tl pf ih(1) by simp
  have c': "map c_message (commits s') =
      map c_message (commits s) @ map update_message (lang # langs)"
    using ih(3) fr by simp
  have head: "\<exists>tr. map_of (files s') ?key = Some (JsonObject tr) \<and> map fst tr = map fst cat"
  proof (cases "lang \<in> set langs")
    case True
    with ih(4) show ?thesis by blast
  next
    case False
    then have "?key \<notin> (\<lambda>l. (BRANCH_NAME, locale_path l)) ` set langs"
      by (auto simp: locale_path_inj)
    with ih(5) m2 keys show ?thesis by simp
  qed
  have other: "\<forall>k. k \<notin> (\<lambda>l. (BRANCH_NAME, locale_path l)) ` set (lang # langs)
              \<longrightarrow> map_of (files s') k = map_of (files s) k"
    using ih(5) m2 by auto
  from run ih(2) k2 c' head ih(4) other show ?case
    by (intro exI[of _ s']) simp
qed

lemma get_repo_ok:
  "host_reliable env \<Longrightarrow> get_repo env s = (Inr (), s\<lparr>clock := Suc (clock s)\<rparr>)"
  by (simp add: host_reliable_def get_repo_def gh_request_def)

lemma get_branch_ok:
  "host_reliable env \<Longrightarrow> map_of (branches s) name = Some sha \<Longrightarrow>
   get_branch env name s = (Inr sha, s\<lparr>clock := Suc (clock s)\<rparr>)"
  by (simp add: host_reliable_def get_branch_def gh_request_def)

lemma ensure_branch_exists:
  "host_reliable env \<Longrightarrow> map_of (branches s) BRANCH_NAME \<noteq> None \<Longrightarrow>
   ensure_branch env sha s =
     s\<lparr>clock := Suc (clock s), console := console s @ [BranchExists BRANCH_NAME]\<rparr>"
  by (auto simp: host_reliable_def ensure_branch_def create_git_ref_def gh_request_def)

lemma load_catalog_ok:
  "host_reliable env \<Longrightarrow> map_of (files s) (''main'', LOCALE_PATH) = Some body \<Longrightarrow>
   load_catalog env s = (json_loads body, s\<lparr>clock := Suc (clock s)\<rparr>)"
  by (simp add: host_reliable_def load_catalog_def get_contents_def gh_request_def)

lemma ensure_pull_exists:
  "host_reliable env \<Longrightarrow> list_ex (pr_matches (''ClintUK:'' @ BRANCH_NAME) ''main'') (pulls s) \<Longrightarrow>
   ensure_pull env s = (Inr (), s\<lparr>clock := Suc (clock s), console := console s @ [PRExists]\<rparr>)"
  by (auto simp: host_reliable_def ensure_pull_def get_pulls_def gh_request_def list_ex_iff
      filter_empty_conv)




subsection \<open>Errors of the first three steps\<close>

lemma early_errors_abort:
  "get_repo env s = (Inl e, s1) \<Longrightarrow> push_translations env s = (Inl e, s1)"
  "get_repo env s = (Inr (), s1) \<Longrightarrow> get_branch env ''main'' s1 = (Inl e, s2) \<Longrightarrow>
     push_translations env s = (Inl e, s2)"
  "get_repo env s = (Inr (), s1) \<Longrightarrow> get_branch env ''main'' s1 = (Inr sha, s2) \<Longrightarrow>
     load_catalog env (ensure_branch env sha s2) = (Inl e, s4) \<Longrightarrow>
     push_translations env s = (Inl e, s4)"
  by (simp_all add: push_translations_def)

lemma load_catalog_errors:
  "get_contents env LOCALE_PATH ''main'' s = (Inl e, s1) \<Longrightarrow> load_catalog env s = (Inl e, s1)"
  "get_contents env LOCALE_PATH ''main'' s = (Inr (NotJson t, sha), s1) \<Longrightarrow>
     load_catalog env s = (Inl JSONDecodeError, s1)"
  by (simp_all add: load_catalog_def)

lemma ensure_branch_swallows:
  "create_git_ref env (''refs/heads/'' @ BRANCH_NAME) sha s = (Inl e, s1) \<Longrightarrow>
   ensure_branch env sha s = s1\<lparr>console := console s1 @ [BranchExists BRANCH_NAME]\<rparr>"
  by (simp add: ensure_branch_def)

subsection \<open>The pull request of a run that finds everything in place\<close>

text \<open>When an open pull request with the head that the code asks for,
  \<open>ClintUK:translations-auto\<close>, is there.\<close>

lemma rerun_with_matching_pull_request:
  "(host_reliable env \<and> llm_answers env
      \<and> map_of (branches s) ''main'' = Some sha
      \<and> map_of (files s) (''main'', LOCALE_PATH) = Some body \<and> json_loads body = Inr cat
      \<and> map_of (branches s) BRANCH_NAME \<noteq> None
      \<and> (\<forall>lang \<in> set (TARGET_LANGS env).
            map_of (files s) (BRANCH_NAME, locale_path lang) \<noteq> None)
      \<and> list_ex (pr_matches (''ClintUK:'' @ BRANCH_NAME) ''main'') (pulls s)
    \<longrightarrow> (\<exists>s6. push_translations env s = send_translation_email env s6
            \<and> PRExists \<in> set (console s6)
            \<and> pulls s6 = pulls s
            \<and> map fst (files s6) = map fst (files s)
            \<and> map c_message (commits s6) =
                map c_message (commits s) @ map update_message (TARGET_LANGS env)
            \<and> (\<forall>lang \<in> set (TARGET_LANGS env).
                  \<exists>tr. map_of (files s6) (BRANCH_NAME, locale_path lang) = Some (JsonObject tr)
                     \<and> map fst tr = map fst cat))
        \<and> pulls (snd (push_translations env s)) = pulls s)
   \<and> (pulls (snd (push_translations env s)) = pulls s
      \<or> (\<not> list_ex (pr_matches (''ClintUK:'' @ BRANCH_NAME) ''main'') (pulls s)
         \<and> pulls (snd (push_translations env s)) = pulls s @ [new_pull env]))"
proof (intro conjI impI)
  show "pulls (snd (push_translations env s)) = pulls s
      \<or> (\<not> list_ex (pr_matches (''ClintUK:'' @ BRANCH_NAME) ''main'') (pulls s)
         \<and> pulls (snd (push_translations env s)) = pulls s @ [new_pull env])"
    by (rule push_translations_pulls)
next
  assume h: "host_reliable env \<and> llm_answers env
      \<and> map_of (branches s) ''main'' = Some sha
      \<and> map_of (files s) (''main'', LOCALE_PATH) = Some body \<and> json_loads body = Inr cat
      \<and> map_of (branches s) BRANCH_NAME \<noteq> None
      \<and> (\<forall>lang \<in> set (TARGET_LANGS env).
            map_of (files s) (BRANCH_NAME, locale_path lang) \<noteq> None)
      \<and> list_ex (pr_matches (''ClintUK:'' @ BRANCH_NAME) ''main'') (pulls s)"
  then have rel: "host_reliable env" and ans: "llm_answers env" by simp_all
  from h have dist: "distinct (map fst cat)" by (simp add: distinct_keys_json_loads[of body cat])
  let ?s1 = "s\<lparr>clock := Suc (clock s)\<rparr>"
  let ?s2 = "?s1\<lparr>clock := Suc (clock ?s1)\<rparr>"
  let ?s3 = "?s2\<lparr>clock := Suc (clock ?s2), console := console ?s2 @ [BranchExists BRANCH_NAME]\<rparr>"
  let ?s4 = "?s3\<lparr>clock := Suc (clock ?s3)\<rparr>"
  have a1: "get_repo env s = (Inr (), ?s1)" by (rule get_repo_ok[OF rel])
  have a2: "get_branch env ''main'' ?s1 = (Inr sha, ?s2)"
    using h by (intro get_branch_ok[OF rel]) simp
  have a3: "ensure_branch env sha ?s2 = ?s3"
    using h by (intro ensure_branch_exists[OF rel]) simp
  have a4: "load_catalog env ?s3 = (Inr cat, ?s4)"
    using h load_catalog_ok[OF rel, of ?s3 body] by simp
  have pre: "\<forall>lang \<in> set (TARGET_LANGS env).
      map_of (files ?s4) (BRANCH_NAME, locale_path lang) \<noteq> None"
    using h by simp
  from translate_langs_existing[OF rel ans dist pre] obtain s5 where s5:
    "translate_langs env cat (TARGET_LANGS env) ?s4 = (Inr (), s5)"
    "map fst (files s5) = map fst (files ?s4)"
    "map c_message (commits s5) =
       map c_message (commits ?s4) @ map update_message (TARGET_LANGS env)"
    "\<forall>lang \<in> set (TARGET_LANGS env).
        \<exists>tr. map_of (files s5) (BRANCH_NAME, locale_path lang) = Some (JsonObject tr)
              \<and> map fst tr = map fst cat"
    by blast
  have p5: "pulls s5 = pulls s"
    using translate_langs_pulls[OF s5(1)] by simp
  let ?s6 = "s5\<lparr>clock := Suc (clock s5), console := console s5 @ [PRExists]\<rparr>"
  have a6: "ensure_pull env s5 = (Inr (), ?s6)"
    using h p5 by (intro ensure_pull_exists[OF rel]) simp
  have run: "push_translations env s = send_translation_email env ?s6"
    using a1 a2 a3 a4 s5(1) a6 by (simp add: push_translations_def)
  have fin: "pulls (snd (push_translations env s)) = pulls s"
    using run p5
      send_translation_email_pulls[of env ?s6 "fst (send_translation_email env ?s6)"
        "snd (send_translation_email env ?s6)"]
    by simp
  from fin show "pulls (snd (push_translations env s)) = pulls s" .
  show "\<exists>s6. push_translations env s = send_translation_email env s6
            \<and> PRExists \<in> set (console s6)
            \<and> pulls s6 = pulls s
            \<and> map fst (files s6) = map fst (files s)
            \<and> map c_message (commits s6) =
                map c_message (commits s) @ map update_message (TARGET_LANGS env)
            \<and> (\<forall>lang \<in> set (TARGET_LANGS env).
                  \<exists>tr. map_of (files s6) (BRANCH_NAME, locale_path lang) = Some (JsonObject tr)
                     \<and> map fst tr = map fst cat)"
    using run p5 s5(2,3,4) by (intro exI[of _ ?s6]) simp
qed

lemma acme_first_run:
  "(case push_translations acme_env demo_state of (r, s') \<Rightarrow> (r, pulls s'))
     = (Inr (), [new_pull acme_env])"
  by code_simp

lemma acme_second_run:
  "(case push_translations acme_env acme_rerun_state of
      (r, s') \<Rightarrow> (r, map c_message (commits s'), pulls s', console s', csv_file s', outbox s'))
     = (Inl (GithubException 422), [''Update es translation'', ''Update fr translation''],
        [new_pull acme_env],
        [BranchExists ''translations-auto'', Translating ''es'', Translating ''fr''], None, [])"
  by code_simp

lemma acme_rerun_facts:
  "repo_name acme_env = ''acme/app''"
  "pulls acme_rerun_state = [new_pull acme_env]"
  "map_of (branches acme_rerun_state) BRANCH_NAME = Some ''c0ffee''"
  "map_of (files acme_rerun_state) (BRANCH_NAME, ''locales/es.json'')
       = Some (JsonObject [(''greeting'', ''Hola'')])"
  "map_of (files acme_rerun_state) (BRANCH_NAME, ''locales/fr.json'')
       = Some (JsonObject [(''greeting'', ''Salut'')])"
  by code_simp+

section \<open>The claims\<close>

text \<open>C6: for every catalog and target language, the i-th entry that one successful call
  of \<open>translate_locale\<close> appends to the language's sequence carries, as its fourth
  component, the sum over the entries 1 to i of that call of the number of
  whitespace-separated words of the original plus that of the translation.\<close>
theorem running_total_is_cumulative_word_count:
  assumes "translate_locale env source_dict target_lang s = (Inr translations, s')"
  shows "\<exists>es. log_entries (translation_log s') target_lang =
                log_entries (translation_log s) target_lang @ es
            \<and> length es = length source_dict
            \<and> map entry_original es = map snd source_dict
            \<and> (\<forall>i < length es.
                  entry_tokens (es ! i) = sum_list (map entry_words (take (Suc i) es)))"
  using translate_locale_Inr[OF assms] by blast

theorem running_total_is_cumulative_word_count_witness:
  "translate_locale demo_env demo_catalog ''es'' demo_state =
     (Inr [(''greeting'', ''Hola a todos''), (''bye'', ''Hola a todos'')], demo_translated)
   \<and> (\<exists>es. log_entries (translation_log demo_translated) ''es'' =
                log_entries (translation_log demo_state) ''es'' @ es
            \<and> length es = length demo_catalog
            \<and> map entry_original es = map snd demo_catalog
            \<and> (\<forall>i < length es.
                  entry_tokens (es ! i) = sum_list (map entry_words (take (Suc i) es))))"
  using running_total_is_cumulative_word_count[OF demo_translate_locale] demo_translate_locale
  by simp

text \<open>C1 (as amended): for every catalog and target language, a successful call of
  \<open>translate_locale\<close> returns a mapping whose key set is the catalog's key set, and
  appends to that language's sequence in the log one entry per catalog key, in the
  catalog's order; hence after a successful run from process start whose target-language
  list has no repeated code, each catalog key appears exactly once in each target
  language's sequence.\<close>
theorem catalog_keys_once_per_language:
  "(translate_locale env source_dict target_lang s = (Inr translations, s') \<longrightarrow>
      set (map fst translations) = set (map fst source_dict)
    \<and> distinct (map fst translations)
    \<and> (\<exists>es. log_entries (translation_log s') target_lang =
                log_entries (translation_log s) target_lang @ es
            \<and> map entry_key es = map fst source_dict))
   \<and> (push_translations env s0 = (Inr (), s1) \<and> translation_log s0 = []
      \<and> map_of (files s0) (''main'', LOCALE_PATH) = Some body \<and> json_loads body = Inr cat
      \<and> distinct (TARGET_LANGS env) \<longrightarrow>
      distinct (map fst cat)
    \<and> (\<forall>lang \<in> set (TARGET_LANGS env).
          map entry_key (log_entries (translation_log s1) lang) = map fst cat))"
proof (intro conjI impI)
  assume a: "translate_locale env source_dict target_lang s = (Inr translations, s')"
  from translate_locale_Inr[OF a]
  show "set (map fst translations) = set (map fst source_dict)"
    and "distinct (map fst translations)"
    and "\<exists>es. log_entries (translation_log s') target_lang =
                log_entries (translation_log s) target_lang @ es
            \<and> map entry_key es = map fst source_dict"
    by blast+
next
  assume b: "push_translations env s0 = (Inr (), s1) \<and> translation_log s0 = []
      \<and> map_of (files s0) (''main'', LOCALE_PATH) = Some body \<and> json_loads body = Inr cat
      \<and> distinct (TARGET_LANGS env)"
  with distinct_keys_json_loads[of body cat] show "distinct (map fst cat)" by blast
  show "\<forall>lang \<in> set (TARGET_LANGS env).
          map entry_key (log_entries (translation_log s1) lang) = map fst cat"
  proof
    fix lang assume "lang \<in> set (TARGET_LANGS env)"
    with b have "count_list (TARGET_LANGS env) lang = 1" by (simp add: count_list_distinct)
    with push_translations_log(1)[of env s0 "()" s1 body cat lang] b
    show "map entry_key (log_entries (translation_log s1) lang) = map fst cat"
      by (simp add: log_entries_def)
  qed
qed

theorem catalog_keys_once_per_language_witness:
  "translate_locale demo_env demo_catalog ''es'' demo_state =
     (Inr [(''greeting'', ''Hola a todos''), (''bye'', ''Hola a todos'')], demo_translated)
   \<and> set (map fst [(''greeting'', ''Hola a todos''), (''bye'', ''Hola a todos'')]) =
       set (map fst demo_catalog)
   \<and> (\<exists>es. log_entries (translation_log demo_translated) ''es'' =
                log_entries (translation_log demo_state) ''es'' @ es
            \<and> map entry_key es = map fst demo_catalog)
   \<and> push_translations demo_env demo_state = (Inr (), demo_after)
   \<and> translation_log demo_state = []
   \<and> map_of (files demo_state) (''main'', LOCALE_PATH) = Some (JsonObject [(''greeting'', ''Hello'')])
   \<and> json_loads (JsonObject [(''greeting'', ''Hello'')]) = Inr [(''greeting'', ''Hello'')]
   \<and> distinct (TARGET_LANGS demo_env)
   \<and> TARGET_LANGS demo_env = [''es'', ''fr'']
   \<and> map entry_key (log_entries (translation_log demo_after) ''es'') = [''greeting'']
   \<and> map entry_key (log_entries (translation_log demo_after) ''fr'') = [''greeting'']"
  using catalog_keys_once_per_language[of demo_env demo_catalog "''es''" demo_state
      "[(''greeting'', ''Hola a todos''), (''bye'', ''Hola a todos'')]" demo_translated
      demo_state demo_after "JsonObject [(''greeting'', ''Hello'')]" "[(''greeting'', ''Hello'')]"]
    demo_translate_locale demo_run demo_state_catalog demo_target_langs
  by simp

theorem catalog_keys_once_per_language_counterexample:
  "push_translations dup_env demo_state = (Inr (), dup_after)
   \<and> translation_log demo_state = []
   \<and> map_of (files demo_state) (''main'', LOCALE_PATH) = Some (JsonObject [(''greeting'', ''Hello'')])
   \<and> json_loads (JsonObject [(''greeting'', ''Hello'')]) = Inr [(''greeting'', ''Hello'')]
   \<and> ''es'' \<in> set (TARGET_LANGS dup_env)
   \<and> map entry_key (log_entries (translation_log dup_after) ''es'') = [''greeting'', ''greeting'']"
proof -
  have "map entry_key (log_entries (translation_log dup_after) ''es'') = [''greeting'', ''greeting'']"
    using push_translations_log(1)[OF dup_run demo_state_catalog(1,2), of "''es''"]
    by (simp add: dup_target_langs demo_state_catalog(3) log_entries_def)
  then show ?thesis
    using dup_run demo_state_catalog by (simp add: dup_target_langs)
qed

text \<open>C10: \<open>translate_locale\<close> restarts its running total at zero on every call
  while appending to the same sequence of the log. After a second call for the same
  language the sequence holds the keys of the catalog twice, and the fourth component of
  an entry of the second call is the cumulative word count of the whole sequence less
  the total of the first call. In a run whose target-language list names a language at
  least twice, every catalog key occurs at least twice in that language's sequence.\<close>
theorem repeated_language_restarts_running_total:
  "(translate_locale env cat lang s = (Inr tr1, s1) \<and> translation_log s1' = translation_log s1
      \<and> translate_locale env cat lang s1' = (Inr tr2, s2) \<longrightarrow>
      (\<exists>es1 es2. log_entries (translation_log s2) lang =
                    log_entries (translation_log s) lang @ es1 @ es2
           \<and> map entry_key es1 = map fst cat \<and> map entry_key es2 = map fst cat
           \<and> (\<forall>i < length es2.
                 entry_tokens ((es1 @ es2) ! (length es1 + i)) =
                   sum_list (map entry_words (take (Suc (length es1 + i)) (es1 @ es2)))
                     - sum_list (map entry_words es1))))
   \<and> (push_translations env s0 = (Inr (), s') \<and> translation_log s0 = []
      \<and> map_of (files s0) (''main'', LOCALE_PATH) = Some body \<and> json_loads body = Inr catalog
      \<and> 2 \<le> count_list (TARGET_LANGS env) lang \<longrightarrow>
      (\<forall>k \<in> set (map fst catalog).
          2 \<le> count_list (map entry_key (log_entries (translation_log s') lang)) k))"
proof (intro conjI impI)
  assume a: "translate_locale env cat lang s = (Inr tr1, s1) \<and> translation_log s1' = translation_log s1
      \<and> translate_locale env cat lang s1' = (Inr tr2, s2)"
  from a translate_locale_Inr[of env cat lang s tr1 s1] obtain es1 where es1:
    "map entry_key es1 = map fst cat"
    "log_entries (translation_log s1) lang = log_entries (translation_log s) lang @ es1"
    by blast
  from a translate_locale_Inr[of env cat lang s1' tr2 s2] obtain es2 where es2:
    "map entry_key es2 = map fst cat"
    "\<forall>i < length es2. entry_tokens (es2 ! i) = sum_list (map entry_words (take (Suc i) es2))"
    "log_entries (translation_log s2) lang = log_entries (translation_log s1') lang @ es2"
    by blast
  have "log_entries (translation_log s2) lang = log_entries (translation_log s) lang @ es1 @ es2"
    using es1(2) es2(3) a by simp
  moreover have "\<forall>i < length es2.
      entry_tokens ((es1 @ es2) ! (length es1 + i)) =
        sum_list (map entry_words (take (Suc (length es1 + i)) (es1 @ es2)))
          - sum_list (map entry_words es1)"
    using es2(2) by simp
  ultimately show "\<exists>es1 es2. log_entries (translation_log s2) lang =
                    log_entries (translation_log s) lang @ es1 @ es2
           \<and> map entry_key es1 = map fst cat \<and> map entry_key es2 = map fst cat
           \<and> (\<forall>i < length es2.
                 entry_tokens ((es1 @ es2) ! (length es1 + i)) =
                   sum_list (map entry_words (take (Suc (length es1 + i)) (es1 @ es2)))
                     - sum_list (map entry_words es1))"
    using es1(1) es2(1) by blast
next
  assume b: "push_translations env s0 = (Inr (), s') \<and> translation_log s0 = []
      \<and> map_of (files s0) (''main'', LOCALE_PATH) = Some body \<and> json_loads body = Inr catalog
      \<and> 2 \<le> count_list (TARGET_LANGS env) lang"
  show "\<forall>k \<in> set (map fst catalog).
          2 \<le> count_list (map entry_key (log_entries (translation_log s') lang)) k"
  proof
    fix k assume k: "k \<in> set (map fst catalog)"
    then have "1 \<le> count_list (map fst catalog) k"
      using count_list_0_iff[of "map fst catalog" k] by simp
    with b have "2 * 1 \<le> count_list (TARGET_LANGS env) lang * count_list (map fst catalog) k"
      by (intro mult_le_mono) simp_all
    with push_translations_log(1)[of env s0 "()" s' body catalog lang] b
    show "2 \<le> count_list (map entry_key (log_entries (translation_log s') lang)) k"
      by (simp add: log_entries_def count_list_concat_replicate)
  qed
qed

theorem repeated_language_restarts_running_total_witness:
  "translate_locale demo_env demo_catalog ''es'' demo_state =
     (Inr [(''greeting'', ''Hola a todos''), (''bye'', ''Hola a todos'')], demo_translated)
   \<and> translate_locale demo_env demo_catalog ''es'' demo_translated =
     (Inr [(''greeting'', ''Hola a todos''), (''bye'', ''Hola a todos'')], demo_translated_twice)
   \<and> (\<exists>es1 es2. log_entries (translation_log demo_translated_twice) ''es'' =
                    log_entries (translation_log demo_state) ''es'' @ es1 @ es2
           \<and> map entry_key es1 = map fst demo_catalog \<and> map entry_key es2 = map fst demo_catalog
           \<and> (\<forall>i < length es2.
                 entry_tokens ((es1 @ es2) ! (length es1 + i)) =
                   sum_list (map entry_words (take (Suc (length es1 + i)) (es1 @ es2)))
                     - sum_list (map entry_words es1)))
   \<and> push_translations dup_env demo_state = (Inr (), dup_after)
   \<and> translation_log demo_state = []
   \<and> map_of (files demo_state) (''main'', LOCALE_PATH) = Some (JsonObject [(''greeting'', ''Hello'')])
   \<and> json_loads (JsonObject [(''greeting'', ''Hello'')]) = Inr [(''greeting'', ''Hello'')]
   \<and> 2 \<le> count_list (TARGET_LANGS dup_env) ''es''
   \<and> ''greeting'' \<in> set (map fst [(''greeting'', ''Hello'')])
   \<and> 2 \<le> count_list (map entry_key (log_entries (translation_log dup_after) ''es'')) ''greeting''"
  using repeated_language_restarts_running_total[of demo_env demo_catalog "''es''" demo_state
      "[(''greeting'', ''Hola a todos''), (''bye'', ''Hola a todos'')]" demo_translated
      demo_translated "[(''greeting'', ''Hola a todos''), (''bye'', ''Hola a todos'')]"
      demo_translated_twice]
    repeated_language_restarts_running_total[of dup_env _ "''es''" _ _ _ _ _ _
      demo_state dup_after "JsonObject [(''greeting'', ''Hello'')]" "[(''greeting'', ''Hello'')]"]
    demo_translate_locale demo_translate_locale_twice dup_run demo_state_catalog dup_target_langs
  by simp

text \<open>C3: for every translation log and counter state, when the report file can be
  written and read back, \<open>send_translation_email\<close> returns normally whatever the mail
  transport does, and the report file on disk then holds the header and the rows of the
  log: it was written before the SMTP session began and the session does not touch it.
  When the transport raises an error on connecting, STARTTLS, login or sending, the
  error is caught, the failure line that names it is printed, and nothing is delivered.\<close>
theorem email_failure_is_not_fatal:
  assumes "disk_fault env OpenWrite = None" and "disk_fault env OpenRead = None"
  shows "fst (send_translation_email env s) = Inr ()
     \<and> csv_file (snd (send_translation_email env s)) =
         Some (csv_header # log_rows (translation_log s))
     \<and> ((\<exists>step \<in> {Connect, Starttls, Login, Sendmail}. smtp_fault env step \<noteq> None) \<longrightarrow>
          (\<exists>e. console (snd (send_translation_email env s)) = console s @ [EmailFailed e])
          \<and> outbox (snd (send_translation_email env s)) = outbox s)"
proof -
  let ?s1 = "s\<lparr>csv_file := Some (csv_header # log_rows (translation_log s))\<rparr>"
  from send_translation_email_disk_ok[OF assms, of s] obtain msg r3 s3 where
    ss: "smtp_session env msg ?s1 = (r3, s3)"
    and ste: "send_translation_email env s =
          (Inr (), case r3 of Inl e \<Rightarrow> s3\<lparr>console := console s3 @ [EmailFailed e]\<rparr> | Inr _ \<Rightarrow> s3)"
    by blast
  have 1: "fst (send_translation_email env s) = Inr ()" using ste by simp
  have 2: "csv_file (snd (send_translation_email env s)) =
         Some (csv_header # log_rows (translation_log s))"
    using ste smtp_session_frame[OF ss] by (cases r3) simp_all
  have 3: "(\<exists>e. console (snd (send_translation_email env s)) = console s @ [EmailFailed e])
          \<and> outbox (snd (send_translation_email env s)) = outbox s"
    if "\<exists>step \<in> {Connect, Starttls, Login, Sendmail}. smtp_fault env step \<noteq> None"
  proof -
    from smtp_session_failed[OF that, of msg ?s1] ss obtain e where "r3 = Inl e" "s3 = ?s1"
      by auto
    with ste show ?thesis by simp
  qed
  from 1 2 3 show ?thesis by blast
qed

theorem email_failure_is_not_fatal_witness:
  "disk_fault mailfail_env OpenWrite = None \<and> disk_fault mailfail_env OpenRead = None
   \<and> (\<exists>step \<in> {Connect, Starttls, Login, Sendmail}. smtp_fault mailfail_env step \<noteq> None)
   \<and> fst (send_translation_email mailfail_env demo_translated) = Inr ()
   \<and> csv_file (snd (send_translation_email mailfail_env demo_translated)) =
         Some (csv_header # log_rows (translation_log demo_translated))
   \<and> (\<exists>e. console (snd (send_translation_email mailfail_env demo_translated)) =
             console demo_translated @ [EmailFailed e])
   \<and> outbox (snd (send_translation_email mailfail_env demo_translated)) = outbox demo_translated"
proof -
  have d: "disk_fault mailfail_env OpenWrite = None" "disk_fault mailfail_env OpenRead = None"
    by (simp_all add: mailfail_env_def demo_env_def)
  have f: "\<exists>step \<in> {Connect, Starttls, Login, Sendmail}. smtp_fault mailfail_env step \<noteq> None"
    by (simp add: mailfail_env_def)
  from email_failure_is_not_fatal[OF d, of demo_translated] d f show ?thesis by blast
qed

text \<open>C7: for every translation log, the empty one included, \<open>write_csv_log\<close>
  writes a file whose first row is the header Language, Key, Original Text, Translated
  Text, followed by exactly one row per entry of the log, language by language in the
  order of the log and entry by entry within a language; after a successful run from
  process start over a catalog of N keys and a target-language list of length L the
  file holds N * L data rows.\<close>
theorem csv_report_has_header_and_one_row_per_entry:
  "(disk_fault env OpenWrite = None \<longrightarrow>
      write_csv_log env s =
        (Inr (), s\<lparr>csv_file := Some ([''Language'', ''Key'', ''Original Text'', ''Translated Text'']
            # log_rows (translation_log s))\<rparr>)
    \<and> (translation_log s = [] \<longrightarrow> csv_file (snd (write_csv_log env s)) = Some [[''Language'', ''Key'', ''Original Text'', ''Translated Text'']]))
   \<and> length (log_rows (translation_log s)) = log_size (translation_log s)
   \<and> (push_translations env s0 = (Inr (), s') \<and> translation_log s0 = []
      \<and> map_of (files s0) (''main'', LOCALE_PATH) = Some body \<and> json_loads body = Inr cat \<longrightarrow>
      csv_file s' = Some ([''Language'', ''Key'', ''Original Text'', ''Translated Text'']
            # log_rows (translation_log s'))
    \<and> length (log_rows (translation_log s')) = length cat * length (TARGET_LANGS env))"
proof (intro conjI impI)
  assume w: "disk_fault env OpenWrite = None"
  from write_csv_log_ok[OF w, unfolded csv_header_def]
  show "write_csv_log env s =
        (Inr (), s\<lparr>csv_file := Some ([''Language'', ''Key'', ''Original Text'', ''Translated Text'']
            # log_rows (translation_log s))\<rparr>)" .
  assume "translation_log s = []"
  with write_csv_log_ok[OF w, of s, unfolded csv_header_def]
  show "csv_file (snd (write_csv_log env s)) = Some [[''Language'', ''Key'', ''Original Text'', ''Translated Text'']]"
    by (simp add: log_rows_def)
next
  show "length (log_rows (translation_log s)) = log_size (translation_log s)"
    by (rule length_log_rows)
next
  assume b: "push_translations env s0 = (Inr (), s') \<and> translation_log s0 = []
      \<and> map_of (files s0) (''main'', LOCALE_PATH) = Some body \<and> json_loads body = Inr cat"
  from b push_translations_Inr[of env s0 "()" s'] obtain s6 where
    "send_translation_email env s6 = (Inr (), s')" by blast
  from send_translation_email_Inr[OF this, unfolded csv_header_def]
  show "csv_file s' = Some ([''Language'', ''Key'', ''Original Text'', ''Translated Text'']
            # log_rows (translation_log s'))" by simp
  from b push_translations_log(2)[of env s0 "()" s' body cat]
  show "length (log_rows (translation_log s')) = length cat * length (TARGET_LANGS env)"
    by (simp add: length_log_rows log_size_def)
qed

theorem csv_report_has_header_and_one_row_per_entry_witness:
  "disk_fault demo_env OpenWrite = None
   \<and> write_csv_log demo_env demo_state =
        (Inr (), demo_state\<lparr>csv_file := Some ([''Language'', ''Key'', ''Original Text'', ''Translated Text'']
            # log_rows (translation_log demo_state))\<rparr>)
   \<and> translation_log demo_state = []
   \<and> csv_file (snd (write_csv_log demo_env demo_state)) = Some [[''Language'', ''Key'', ''Original Text'', ''Translated Text'']]
   \<and> push_translations demo_env demo_state = (Inr (), demo_after)
   \<and> map_of (files demo_state) (''main'', LOCALE_PATH) = Some (JsonObject [(''greeting'', ''Hello'')])
   \<and> json_loads (JsonObject [(''greeting'', ''Hello'')]) = Inr [(''greeting'', ''Hello'')]
   \<and> csv_file demo_after = Some ([''Language'', ''Key'', ''Original Text'', ''Translated Text'']
            # log_rows (translation_log demo_after))
   \<and> length (log_rows (translation_log demo_after)) = 1 * 2"
proof -
  have d: "disk_fault demo_env OpenWrite = None" by (simp add: demo_env_def)
  from csv_report_has_header_and_one_row_per_entry[of demo_env demo_state demo_state demo_after
      "JsonObject [(''greeting'', ''Hello'')]" "[(''greeting'', ''Hello'')]"]
    d demo_run demo_state_catalog demo_target_langs
  show ?thesis by (simp add: log_rows_def)
qed

text \<open>C2: the Usage Counter equals the sum of the token costs that the translation API
  has reported so far. A call of \<open>translate_text\<close> whose response reports a cost adds
  exactly that cost to the counter; the equality of counter and sum, once true, is true
  after \<open>translate_text\<close>, after \<open>translate_locale\<close> and after the whole run, however
  they end; it is true at process start, where both are zero; and, the reported costs
  being counts, the counter never decreases.\<close>
theorem usage_counter_is_sum_of_reported_costs:
  "(\<forall>r t. chat_create env (clock s) (model env) (build_prompt text lang) = Inr r
           \<and> usage_total_tokens r = Some t \<longrightarrow>
        total_tokens_used (snd (translate_text env text lang s)) = total_tokens_used s + t
      \<and> api_costs (snd (translate_text env text lang s)) = api_costs s @ [t])
   \<and> (total_tokens_used s = sum_list (api_costs s) \<longrightarrow>
        total_tokens_used (snd (translate_text env text lang s)) =
          sum_list (api_costs (snd (translate_text env text lang s)))
      \<and> total_tokens_used (snd (translate_locale env cat lang s)) =
          sum_list (api_costs (snd (translate_locale env cat lang s)))
      \<and> total_tokens_used (snd (push_translations env s)) =
          sum_list (api_costs (snd (push_translations env s))))
   \<and> (costs_nonneg env \<longrightarrow>
        total_tokens_used s \<le> total_tokens_used (snd (translate_text env text lang s))
      \<and> total_tokens_used s \<le> total_tokens_used (snd (translate_locale env cat lang s))
      \<and> total_tokens_used s \<le> total_tokens_used (snd (push_translations env s)))
   \<and> (fresh s \<longrightarrow> total_tokens_used s = 0 \<and> sum_list (api_costs s) = 0)"
proof -
  have c1: "charged env s (snd (translate_text env text lang s))"
    by (rule translate_text_charged[of env "text" lang s "fst (translate_text env text lang s)"]) simp
  have c2: "charged env s (snd (translate_locale env cat lang s))"
    by (rule translate_locale_charged[of env cat lang s "fst (translate_locale env cat lang s)"]) simp
  have c3: "charged env s (snd (push_translations env s))"
    by (rule push_translations_charged)
  show ?thesis
    using translate_text_reported[of env s "text" lang]
      charged_sum[OF c1] charged_sum[OF c2] charged_sum[OF c3]
      charged_mono[OF c1] charged_mono[OF c2] charged_mono[OF c3]
    by (simp add: fresh_def)
qed

theorem usage_counter_is_sum_of_reported_costs_witness:
  "chat_create demo_env (clock demo_state) (model demo_env) (build_prompt ''Hello'' ''es'')
     = Inr \<lparr>usage_total_tokens = Some 20, choices = [Some '' Hola a todos '']\<rparr>
   \<and> total_tokens_used (snd (translate_text demo_env ''Hello'' ''es'' demo_state)) =
       total_tokens_used demo_state + 20
   \<and> api_costs (snd (translate_text demo_env ''Hello'' ''es'' demo_state)) =
       api_costs demo_state @ [20]
   \<and> fresh demo_state
   \<and> total_tokens_used demo_state = sum_list (api_costs demo_state)
   \<and> total_tokens_used (snd (translate_locale demo_env demo_catalog ''es'' demo_state)) =
          sum_list (api_costs (snd (translate_locale demo_env demo_catalog ''es'' demo_state)))
   \<and> total_tokens_used (snd (push_translations demo_env demo_state)) =
          sum_list (api_costs (snd (push_translations demo_env demo_state)))
   \<and> costs_nonneg demo_env
   \<and> total_tokens_used demo_state
        \<le> total_tokens_used (snd (push_translations demo_env demo_state))"
proof -
  have a: "chat_create demo_env (clock demo_state) (model demo_env) (build_prompt ''Hello'' ''es'')
     = Inr \<lparr>usage_total_tokens = Some 20, choices = [Some '' Hola a todos '']\<rparr>"
    by (simp add: demo_env_def demo_llm_def demo_state_def)
  have f: "fresh demo_state" by (simp add: fresh_def demo_state_def)
  have i: "total_tokens_used demo_state = sum_list (api_costs demo_state)"
    by (simp add: demo_state_def)
  note T = usage_counter_is_sum_of_reported_costs[of demo_env demo_state "''Hello''" "''es''"
      demo_catalog]
  from T a have p1:
    "total_tokens_used (snd (translate_text demo_env ''Hello'' ''es'' demo_state)) =
       total_tokens_used demo_state + 20
     \<and> api_costs (snd (translate_text demo_env ''Hello'' ''es'' demo_state)) =
       api_costs demo_state @ [20]"
    by simp
  from T i have p2:
    "total_tokens_used (snd (translate_locale demo_env demo_catalog ''es'' demo_state)) =
          sum_list (api_costs (snd (translate_locale demo_env demo_catalog ''es'' demo_state)))
     \<and> total_tokens_used (snd (push_translations demo_env demo_state)) =
          sum_list (api_costs (snd (push_translations demo_env demo_state)))"
    by blast
  from T costs_nonneg_demo have p3:
    "total_tokens_used demo_state
        \<le> total_tokens_used (snd (push_translations demo_env demo_state))"
    by blast
  from a f i p1 p2 p3 costs_nonneg_demo show ?thesis by blast
qed

text \<open>C4 (as amended): in the per-language publish step, for every language, the
  publisher attempts to create the output file, and on any creation error (not only
  file-already-exists) it falls back to updating the file after fetching the current
  file's revision marker: when the file is there and the two fallback requests go
  through, the file is updated in place and the step returns normally. An error raised
  by the fallback itself (the file is not there, say) is not caught: the loop over the
  languages ends with that error in the state of the failure, whatever languages
  remain.\<close>
theorem creation_error_falls_back_to_update:
  "(create_file env (locale_path lang) (add_message lang) blob BRANCH_NAME the_author s = (Inr (), s1)
      \<longrightarrow> publish_file env lang blob s = (Inr (), s1))
   \<and> (create_file env (locale_path lang) (add_message lang) blob BRANCH_NAME the_author s = (Inl e, s1)
      \<longrightarrow> publish_file env lang blob s =
            (case get_contents env (locale_path lang) BRANCH_NAME s1 of
               (Inl e', s2) \<Rightarrow> (Inl e', s2)
             | (Inr (body, sha), s2) \<Rightarrow>
                 update_file env (locale_path lang) (update_message lang) blob sha BRANCH_NAME
                   the_author s2)
        \<and> (gh_fault env (clock s1) GetContents = None
             \<and> gh_fault env (Suc (clock s1)) UpdateFile = None
             \<and> map_of (files s) (BRANCH_NAME, locale_path lang) = Some b0 \<longrightarrow>
             fst (publish_file env lang blob s) = Inr ()
           \<and> map_of (files (snd (publish_file env lang blob s))) (BRANCH_NAME, locale_path lang)
               = Some blob
           \<and> map fst (files (snd (publish_file env lang blob s))) = map fst (files s)
           \<and> map c_message (commits (snd (publish_file env lang blob s)))
               = map c_message (commits s) @ [update_message lang])
        \<and> (gh_fault env (clock s1) GetContents = None
             \<and> map_of (files s) (BRANCH_NAME, locale_path lang) = None \<longrightarrow>
             fst (publish_file env lang blob s) = Inl (GithubException 404)))
   \<and> (translate_locale env cat lang (s\<lparr>console := console s @ [Translating lang]\<rparr>) = (Inr tr, s3)
       \<and> publish_file env lang (JsonObject tr) s3 = (Inl e, s4)
      \<longrightarrow> translate_langs env cat (lang # rest) s = (Inl e, s4))"
proof (intro conjI impI)
  assume "create_file env (locale_path lang) (add_message lang) blob BRANCH_NAME the_author s
            = (Inr (), s1)"
  then show "publish_file env lang blob s = (Inr (), s1)" by (rule publish_file_created)
next
  assume c: "create_file env (locale_path lang) (add_message lang) blob BRANCH_NAME the_author s
            = (Inl e, s1)"
  note fb = publish_file_fallback[OF c]
  from fb show "publish_file env lang blob s =
            (case get_contents env (locale_path lang) BRANCH_NAME s1 of
               (Inl e', s2) \<Rightarrow> (Inl e', s2)
             | (Inr (body, sha), s2) \<Rightarrow>
                 update_file env (locale_path lang) (update_message lang) blob sha BRANCH_NAME
                   the_author s2)" .
  note s1 = create_file_Inl[OF c]
  {
    assume h: "gh_fault env (clock s1) GetContents = None
             \<and> gh_fault env (Suc (clock s1)) UpdateFile = None
             \<and> map_of (files s) (BRANCH_NAME, locale_path lang) = Some b0"
    then have f1: "map_of (files s1) (BRANCH_NAME, locale_path lang) = Some b0"
      using s1 by simp
    have k: "(BRANCH_NAME, locale_path lang) \<in> set (map fst (files s))"
      using h map_of_eq_None_iff[of "files s" "(BRANCH_NAME, locale_path lang)"] by auto
    from h have g: "gh_fault env (clock s1) GetContents = None"
      "gh_fault env (Suc (clock s1)) UpdateFile = None" by simp_all
    have u: "publish_file env lang blob s =
         (Inr (), s1\<lparr>clock := Suc (Suc (clock s1)),
                    files := dict_set (files s1) (BRANCH_NAME, locale_path lang) blob,
                    commits := commits s1 @
                      [\<lparr>c_branch = BRANCH_NAME, c_path = locale_path lang,
                        c_message = update_message lang, c_author = the_author\<rparr>]\<rparr>)"
      using fb fallback_updates[OF g f1, of blob] by simp
    from h u show "fst (publish_file env lang blob s) = Inr ()" by simp
    from h u show "map_of (files (snd (publish_file env lang blob s)))
        (BRANCH_NAME, locale_path lang) = Some blob"
      by (simp add: map_of_dict_set)
    from h u s1 k show "map fst (files (snd (publish_file env lang blob s))) = map fst (files s)"
      by (simp add: keys_dict_set_present)
    from h u s1 show "map c_message (commits (snd (publish_file env lang blob s)))
               = map c_message (commits s) @ [update_message lang]"
      by simp
  }
  {
    assume h: "gh_fault env (clock s1) GetContents = None
             \<and> map_of (files s) (BRANCH_NAME, locale_path lang) = None"
    then have f1: "map_of (files s1) (BRANCH_NAME, locale_path lang) = None"
      using s1 by simp
    from h have g: "gh_fault env (clock s1) GetContents = None" by simp
    from fb fallback_missing[OF g f1, of blob]
    show "fst (publish_file env lang blob s) = Inl (GithubException 404)" by simp
  }
next
  assume "translate_locale env cat lang (s\<lparr>console := console s @ [Translating lang]\<rparr>) = (Inr tr, s3)
       \<and> publish_file env lang (JsonObject tr) s3 = (Inl e, s4)"
  then show "translate_langs env cat (lang # rest) s = (Inl e, s4)"
    by (simp add: translate_langs_stops)
qed

theorem creation_error_falls_back_to_update_witness:
  "create_file demo_env (locale_path ''ja'') (add_message ''ja'') demo_blob BRANCH_NAME
     the_author rerun_state = (Inr (), ja_created)
   \<and> publish_file demo_env ''ja'' demo_blob rerun_state = (Inr (), ja_created)
   \<and> create_file nocreate_env (locale_path ''es'') (add_message ''es'') demo_blob BRANCH_NAME
       the_author rerun_state
       = (Inl (GithubException 403), rerun_state\<lparr>clock := Suc (clock rerun_state)\<rparr>)
   \<and> gh_fault nocreate_env (clock (rerun_state\<lparr>clock := Suc (clock rerun_state)\<rparr>)) GetContents = None
   \<and> gh_fault nocreate_env (Suc (clock (rerun_state\<lparr>clock := Suc (clock rerun_state)\<rparr>))) UpdateFile = None
   \<and> map_of (files rerun_state) (BRANCH_NAME, locale_path ''es'')
       = Some (JsonObject [(''greeting'', ''Hola'')])
   \<and> fst (publish_file nocreate_env ''es'' demo_blob rerun_state) = Inr ()
   \<and> map_of (files (snd (publish_file nocreate_env ''es'' demo_blob rerun_state)))
        (BRANCH_NAME, locale_path ''es'') = Some demo_blob
   \<and> map fst (files (snd (publish_file nocreate_env ''es'' demo_blob rerun_state)))
       = map fst (files rerun_state)
   \<and> map c_message (commits (snd (publish_file nocreate_env ''es'' demo_blob rerun_state)))
       = map c_message (commits rerun_state) @ [update_message ''es'']
   \<and> create_file nocreate_env (locale_path ''ja'') (add_message ''ja'') demo_blob BRANCH_NAME
       the_author rerun_state
       = (Inl (GithubException 403), rerun_state\<lparr>clock := Suc (clock rerun_state)\<rparr>)
   \<and> map_of (files rerun_state) (BRANCH_NAME, locale_path ''ja'') = None
   \<and> fst (publish_file nocreate_env ''ja'' demo_blob rerun_state) = Inl (GithubException 404)
   \<and> translate_locale nocreate_env [(''greeting'', ''Hello'')] ''ja''
       (rerun_state\<lparr>console := console rerun_state @ [Translating ''ja'']\<rparr>)
       = (Inr [(''greeting'', ''Hola a todos'')], ja_translated)
   \<and> publish_file nocreate_env ''ja'' (JsonObject [(''greeting'', ''Hola a todos'')]) ja_translated
       = (Inl (GithubException 404), ja_failed)
   \<and> translate_langs nocreate_env [(''greeting'', ''Hello'')] (''ja'' # [''fr'']) rerun_state
       = (Inl (GithubException 404), ja_failed)"
proof -
  note A = creation_error_falls_back_to_update[where env = demo_env and lang = "''ja''"
      and blob = demo_blob and s = rerun_state and ?s1.0 = ja_created]
  note B = creation_error_falls_back_to_update[where env = nocreate_env and lang = "''es''"
      and blob = demo_blob and s = rerun_state and e = "GithubException 403"
      and ?s1.0 = "rerun_state\<lparr>clock := Suc (clock rerun_state)\<rparr>"
      and ?b0.0 = "JsonObject [(''greeting'', ''Hola'')]"]
  note C = creation_error_falls_back_to_update[where env = nocreate_env and lang = "''ja''"
      and blob = demo_blob and s = rerun_state and e = "GithubException 404"
      and cat = "[(''greeting'', ''Hello'')]" and tr = "[(''greeting'', ''Hola a todos'')]"
      and ?s3.0 = ja_translated and ?s4.0 = ja_failed and rest = "[''fr'']"]
  note C' = creation_error_falls_back_to_update[where env = nocreate_env and lang = "''ja''"
      and blob = demo_blob and s = rerun_state and e = "GithubException 403"
      and ?s1.0 = "rerun_state\<lparr>clock := Suc (clock rerun_state)\<rparr>"]
  from A ja_create have a: "publish_file demo_env ''ja'' demo_blob rerun_state = (Inr (), ja_created)"
    by blast
  from B es_create_refused[of "''es''"] nocreate_faults rerun_files(1)
  have b: "fst (publish_file nocreate_env ''es'' demo_blob rerun_state) = Inr ()
      \<and> map_of (files (snd (publish_file nocreate_env ''es'' demo_blob rerun_state)))
        (BRANCH_NAME, locale_path ''es'') = Some demo_blob
      \<and> map fst (files (snd (publish_file nocreate_env ''es'' demo_blob rerun_state)))
       = map fst (files rerun_state)
      \<and> map c_message (commits (snd (publish_file nocreate_env ''es'' demo_blob rerun_state)))
       = map c_message (commits rerun_state) @ [update_message ''es'']"
    by blast
  from C' es_create_refused[of "''ja''"] nocreate_faults rerun_files(3)
  have c: "fst (publish_file nocreate_env ''ja'' demo_blob rerun_state) = Inl (GithubException 404)"
    by blast
  from C ja_translate ja_publish
  have d: "translate_langs nocreate_env [(''greeting'', ''Hello'')] (''ja'' # [''fr'']) rerun_state
       = (Inl (GithubException 404), ja_failed)"
    by blast
  from a b c d ja_create es_create_refused nocreate_faults rerun_files ja_translate ja_publish
  show ?thesis by blast
qed

theorem creation_error_falls_back_to_update_counterexample:
  "TARGET_LANGS nocreate_env = [''es'', ''fr'']
   \<and> gh_fault nocreate_env 5 CreateFile = Some (GithubException 403)
   \<and> fst (push_translations nocreate_env demo_state) = Inl (GithubException 404)
   \<and> console (snd (push_translations nocreate_env demo_state)) = [Translating ''es'']
   \<and> log_entries (translation_log (snd (push_translations nocreate_env demo_state))) ''fr'' = []"
  by code_simp

text \<open>C9: every error raised while resolving the repository and the main branch,
  creating the working branch (unless it exists already) or loading the catalog is to
  abort the run, a branch that already exists being the only non-fatal condition. The
  run below meets a 403 on \<open>create_git_ref\<close> while the working branch does not exist:
  the handler of lines 130-131 catches it, prints that the branch already exists, and
  the run goes on to translate the first language and pay for it, until the publish
  step fails on the missing branch.\<close>
theorem branch_creation_error_is_swallowed:
  "map_of (branches demo_state) BRANCH_NAME = None
   \<and> gh_fault noref_env 2 CreateGitRef = Some (GithubException 403)
   \<and> fst (create_git_ref noref_env (''refs/heads/'' @ BRANCH_NAME) ''c0ffee''
            (demo_state\<lparr>clock := 2\<rparr>)) = Inl (GithubException 403)
   \<and> console (snd (push_translations noref_env demo_state))
       = [BranchExists ''translations-auto'', Translating ''es'']
   \<and> api_costs (snd (push_translations noref_env demo_state)) = [24]
   \<and> map_of (branches (snd (push_translations noref_env demo_state))) BRANCH_NAME = None
   \<and> fst (push_translations noref_env demo_state) = Inl (GithubException 404)"
  by code_simp

text \<open>C5: a run against a repository in which the working branch, the output file of
  every target language and an open pull request from the working branch into main
  already exist is to update each file, create no second pull request and still invoke
  the Report Mailer. In the repository \<open>acme/app\<close> the first run opens the pull
  request, whose head is \<open>acme:translations-auto\<close>. The second run updates the two
  files, then asks for open pull requests with head \<open>ClintUK:translations-auto\<close>
  (line 160), finds none, calls \<open>create_pull\<close>, which the host refuses with 422, and
  ends with that error: no report file is written and no mail is sent.\<close>
theorem pull_request_of_another_owner_is_not_found:
  "repo_name acme_env = ''acme/app''
   \<and> fst (push_translations acme_env demo_state) = Inr ()
   \<and> pulls (snd (push_translations acme_env demo_state)) = pulls acme_rerun_state
   \<and> pulls acme_rerun_state =
       [\<lparr>pr_open = True, pr_head = ''acme:translations-auto'', pr_base = ''main'',
         pr_title = ''Automated translations via RingStone MVP Demo'',
         pr_body = ''This PR was auto-generated using LLM-based translation.''\<rparr>]
   \<and> map_of (branches acme_rerun_state) BRANCH_NAME = Some ''c0ffee''
   \<and> map_of (files acme_rerun_state) (BRANCH_NAME, ''locales/es.json'')
       = Some (JsonObject [(''greeting'', ''Hola'')])
   \<and> map_of (files acme_rerun_state) (BRANCH_NAME, ''locales/fr.json'')
       = Some (JsonObject [(''greeting'', ''Salut'')])
   \<and> fst (push_translations acme_env acme_rerun_state) = Inl (GithubException 422)
   \<and> map c_message (commits (snd (push_translations acme_env acme_rerun_state)))
       = [''Update es translation'', ''Update fr translation'']
   \<and> pulls (snd (push_translations acme_env acme_rerun_state)) = pulls acme_rerun_state
   \<and> console (snd (push_translations acme_env acme_rerun_state))
       = [BranchExists ''translations-auto'', Translating ''es'', Translating ''fr'']
   \<and> csv_file (snd (push_translations acme_env acme_rerun_state)) = None
   \<and> outbox (snd (push_translations acme_env acme_rerun_state)) = []"
  using acme_first_run acme_second_run acme_rerun_facts
  by (simp add: case_prod_beta acme_rerun_state_def)

end
